theory Spec2Isabelle
  imports Main "HOL-Library.Sublist"
begin

section \<open>Data model (testcase.ts)\<close>

text \<open>
  \<^verbatim>\<open>Location\<close>, \<^verbatim>\<open>TestStatus\<close>, \<^verbatim>\<open>TestResult\<close> and \<^verbatim>\<open>TestCase\<close> follow
  \<^verbatim>\<open>packages/tact/src/test/testcase.ts\<close>. Row and column are natural numbers: the
  declaration API only stores strings of digits converted with \<^verbatim>\<open>Number\<close>, or 0.
\<close>

record Location =
  row :: nat
  column :: nat

datatype TestStatus = Expected | Unexpected | Pending | Skipped | Flaky

text \<open>
  Modelled from the spec: the type \<^verbatim>\<open>SnapshotStatus\<close> is imported from
  \<^verbatim>\<open>matchers/toMatchSnapshot.ts\<close>, which is not among the sources; the spec gives it
  as a name with one of five outcomes. No function below inspects it.
\<close>

datatype SnapshotOutcome = Matched | Mismatched | Written | Updated | Missing

record SnapshotStatus =
  name :: string
  snapshotOutcome :: SnapshotOutcome

record TestResult =
  status :: TestStatus
  error :: "string option"
  duration :: int
  snapshots :: "SnapshotStatus list"

text \<open>
  A suite is known to a test through its \<^verbatim>\<open>parentSuite\<close> chain only, so the chain is the
  value: title, type and optional parent. The class itself (\<^verbatim>\<open>suite.ts\<close>) is not among the
  sources; the three type strings are the ones \<^verbatim>\<open>titlePath\<close> and \<^verbatim>\<open>filePath\<close> compare
  with, and \<^verbatim>\<open>RootT\<close> stands for any other type.
\<close>

datatype SuiteType = RootT | ProjectT | FileT | DescribeT

datatype Suite = Suite (title: string) (type: SuiteType) (parentSuite: "Suite option")

text \<open>
  The test function is an opaque callable; a number stands for its identity.
\<close>

type_synonym TestFunction = nat

record TestCase =
  testId :: string
  title :: string
  location :: Location
  testFunction :: TestFunction
  suite :: Suite
  results :: "TestResult list"

subsection \<open>Rendering a number in a template string\<close>

definition digits :: string where
  "digits = ''0123456789''"

function string_of_nat :: "nat \<Rightarrow> string" where
  "string_of_nat n =
     (if n < 10 then [digits ! n] else string_of_nat (n div 10) @ [digits ! (n mod 10)])"
  by pat_completeness auto
termination
  by (relation "measure (\<lambda>n. n)") auto

declare string_of_nat.simps [simp del]

subsection \<open>\<^verbatim>\<open>TestCase.titlePath\<close>, the constructor and \<^verbatim>\<open>filePath\<close>\<close>

text \<open>
  One turn of the \<^verbatim>\<open>while\<close> loop of \<^verbatim>\<open>titlePath\<close>: what is pushed for the current suite.
\<close>

definition push_title :: "Location \<Rightarrow> Suite \<Rightarrow> string list \<Rightarrow> string list" where
  "push_title loc s titles =
     (if type s = ProjectT \<and> length (Suite.title s) \<noteq> 0
        then titles @ [''['' @ Suite.title s @ '']'']
      else if type s = DescribeT
        then titles @ [Suite.title s]
      else if type s = FileT
        then titles @ [Suite.title s @ '':'' @ string_of_nat (row loc) @ '':'' @ string_of_nat (row loc)]
      else titles)"

fun titlePath_loop :: "Location \<Rightarrow> Suite option \<Rightarrow> string list \<Rightarrow> string list" where
  "titlePath_loop loc None titles = titles"
| "titlePath_loop loc (Some (Suite t ty p)) titles =
     titlePath_loop loc p (push_title loc (Suite t ty p) titles)"

definition titlePath :: "string \<Rightarrow> Location \<Rightarrow> Suite \<Rightarrow> string list" where
  "titlePath ttl loc s = rev (titlePath_loop loc (Some s) []) @ [ttl]"

text \<open>\<^verbatim>\<open>Array.prototype.join\<close> on an array of strings.\<close>

fun join :: "string \<Rightarrow> string list \<Rightarrow> string" where
  "join sep [] = []"
| "join sep [x] = x"
| "join sep (x # y # ys) = x @ sep @ join sep (y # ys)"

text \<open>
  The constructor: \<^verbatim>\<open>this.id = this.titlePath().join("")\<close>, \<^verbatim>\<open>results = []\<close>.
\<close>

definition new_TestCase :: "string \<Rightarrow> Location \<Rightarrow> TestFunction \<Rightarrow> Suite \<Rightarrow> TestCase" where
  "new_TestCase ttl loc fn s =
     \<lparr> testId = join [] (titlePath ttl loc s), title = ttl, location = loc,
       testFunction = fn, suite = s, results = [] \<rparr>"

fun filePath_loop :: "Suite option \<Rightarrow> string option" where
  "filePath_loop None = None"
| "filePath_loop (Some (Suite t ty p)) = (if ty = FileT then Some t else filePath_loop p)"

definition filePath :: "TestCase \<Rightarrow> string option" where
  "filePath t = filePath_loop (Some (suite t))"

subsection \<open>\<^verbatim>\<open>TestCase.outcome\<close>\<close>

text \<open>
  The \<^verbatim>\<open>for\<close> loop over \<^verbatim>\<open>results.slice(1)\<close>, with the running \<^verbatim>\<open>status\<close> as accumulator;
  \<^verbatim>\<open>return "flaky"\<close> leaves the loop.
\<close>

fun outcome_loop :: "TestStatus \<Rightarrow> TestResult list \<Rightarrow> TestStatus" where
  "outcome_loop st [] = st"
| "outcome_loop st (r # rs) =
     (if (st = Unexpected \<and> status r = Expected) \<or> (st = Expected \<and> status r \<noteq> Expected)
      then Flaky
      else outcome_loop (status r) rs)"

definition outcome :: "TestCase \<Rightarrow> TestStatus" where
  "outcome t =
     (case results t of
        [] \<Rightarrow> Skipped
      | r # rs \<Rightarrow> outcome_loop (status r) rs)"

text \<open>
  The rule as the specification words it, on the list of statuses: a flaky transition is
  a step from \<^verbatim>\<open>unexpected\<close> to \<^verbatim>\<open>expected\<close> or from \<^verbatim>\<open>expected\<close> to anything else.
\<close>

definition flaky_transition :: "TestStatus \<Rightarrow> TestStatus \<Rightarrow> bool" where
  "flaky_transition a b = ((a = Unexpected \<and> b = Expected) \<or> (a = Expected \<and> b \<noteq> Expected))"

definition outcome_spec :: "TestStatus list \<Rightarrow> TestStatus" where
  "outcome_spec sts =
     (if sts = [] then Skipped
      else if list_ex (\<lambda>(a, b). flaky_transition a b) (zip sts (tl sts)) then Flaky
      else last sts)"

text \<open>
  The title path as the specification words it: the ancestors root-ward, what each one
  emits, reversed, then the test's own title.
\<close>

fun ancestors :: "Suite option \<Rightarrow> Suite list" where
  "ancestors None = []"
| "ancestors (Some (Suite t ty p)) = Suite t ty p # ancestors p"

definition emitted :: "nat \<Rightarrow> Suite \<Rightarrow> string option" where
  "emitted r s =
     (case type s of
        ProjectT \<Rightarrow> (if Suite.title s = [] then None else Some (''['' @ Suite.title s @ '']''))
      | DescribeT \<Rightarrow> Some (Suite.title s)
      | FileT \<Rightarrow> Some (Suite.title s @ '':'' @ string_of_nat r @ '':'' @ string_of_nat r)
      | RootT \<Rightarrow> None)"

definition titlePath_spec :: "string \<Rightarrow> nat \<Rightarrow> Suite \<Rightarrow> string list" where
  "titlePath_spec ttl r s = rev (List.map_filter (emitted r) (ancestors (Some s))) @ [ttl]"

section \<open>The runner (runner.ts)\<close>

subsection \<open>Selection of the tests\<close>


record ExecutionOptions =
  updateSnapshot :: bool
  testFilter :: "string list option"

text \<open>
  \<^verbatim>\<open>process.exit(code)\<close> after a line on standard error ends the run; otherwise the run
  goes on with a value.
\<close>

datatype 'a process = Exit int string | Running 'a

definition backslash :: char where
  "backslash = CHR 0x5C"

text \<open>\<^verbatim>\<open>filter.replaceAll("\\", "\\\\")\<close>: every backslash becomes two.\<close>

definition replaceAll_backslash :: "string \<Rightarrow> string" where
  "replaceAll_backslash s = concat (map (\<lambda>c. if c = backslash then [backslash, backslash] else [c]) s)"

text \<open>
  A compiled regular expression is its \<^verbatim>\<open>test\<close> function (the patterns are built without
  flags, so \<^verbatim>\<open>test\<close> keeps no state). The constructor \<open>RegExp_new\<close> and \<^verbatim>\<open>path.resolve\<close>
  belong to the platform and are parameters; \<open>RegExp_new s = None\<close> is the SyntaxError
  thrown for an invalid pattern, which the \<^verbatim>\<open>catch\<close> turns into exit code 1.
\<close>

type_synonym RegExp = "string \<Rightarrow> bool"

definition invalid_filter_message :: string where
  "invalid_filter_message =
     ''Error: invalid test filter supplied. Test filters must be valid regular expressions''"

definition refine_with_filters ::
  "(string \<Rightarrow> RegExp option) \<Rightarrow> (string \<Rightarrow> string) \<Rightarrow> ExecutionOptions \<Rightarrow> TestCase list
     \<Rightarrow> TestCase list process" where
  "refine_with_filters RegExp_new resolve options allTests =
     (case testFilter options of
        None \<Rightarrow> Running allTests
      | Some filters \<Rightarrow>
          if length filters > 0 then
            (case those (map (\<lambda>f. RegExp_new (replaceAll_backslash f)) filters) of
               None \<Rightarrow> Exit 1 invalid_filter_message
             | Some patterns \<Rightarrow>
                 Running (filter
                   (\<lambda>t. let testPath = resolve (case filePath t of None \<Rightarrow> [] | Some p \<Rightarrow> p)
                        in find (\<lambda>pattern. pattern testPath) patterns \<noteq> None)
                   allTests))
          else Running allTests)"


text \<open>
  A fragment of the ECMAScript pattern language, enough to run the filter step on
  concrete patterns: an ordinary character matches itself, \<^verbatim>\<open>.\<close> matches any character
  but a line break, a backslash before a syntax character matches that character, and
  the search is unanchored. A backslash that ends the pattern is a SyntaxError. Every
  other use of a syntax character is outside the fragment and also gives \<open>None\<close>; the
  patterns used below stay inside it.
\<close>

datatype atom = Lit char | AnyChar

definition syntax_characters :: string where
  "syntax_characters = ''^$.*+?()[]{}|'' @ [backslash]"

fun parse_fragment :: "string \<Rightarrow> atom list option" where
  "parse_fragment [] = Some []"
| "parse_fragment [c] =
     (if c = CHR ''.'' then Some [AnyChar]
      else if c \<in> set syntax_characters then None
      else Some [Lit c])"
| "parse_fragment (c # d # ds) =
     (if c = backslash then
        (if d \<in> set syntax_characters then map_option ((#) (Lit d)) (parse_fragment ds) else None)
      else if c = CHR ''.'' then map_option ((#) AnyChar) (parse_fragment (d # ds))
      else if c \<in> set syntax_characters then None
      else map_option ((#) (Lit c)) (parse_fragment (d # ds)))"

fun matches_here :: "atom list \<Rightarrow> string \<Rightarrow> bool" where
  "matches_here [] s = True"
| "matches_here (a # as) [] = False"
| "matches_here (Lit x # as) (c # cs) = (c = x \<and> matches_here as cs)"
| "matches_here (AnyChar # as) (c # cs) = (c \<noteq> CHR 0x0A \<and> c \<noteq> CHR 0x0D \<and> matches_here as cs)"

fun search :: "atom list \<Rightarrow> string \<Rightarrow> bool" where
  "search as [] = matches_here as []"
| "search as (c # cs) = (matches_here as (c # cs) \<or> search as cs)"

definition RegExp_fragment :: "string \<Rightarrow> RegExp option" where
  "RegExp_fragment s = map_option search (parse_fragment s)"

subsection \<open>The task of one test in \<^verbatim>\<open>runSuites\<close>\<close>

text \<open>
  What a task does is recorded in order: a call of the pool for a test id, and the
  reporter's \<^verbatim>\<open>endTest\<close>. The call of \<^verbatim>\<open>runTestWorker\<close> is the parameter \<open>callWorker\<close>: given
  the test and the number of the call it gives the reply
  \<^verbatim>\<open>{error, status, duration, snapshots}\<close> and what it did.
\<close>

datatype event = PoolExec string | EndTest string TestResult

type_synonym worker = "TestCase \<Rightarrow> nat \<Rightarrow> TestResult \<times> event list"

definition max_attempts :: "int \<Rightarrow> nat" where
  "max_attempts retries = nat (max 0 retries + 1)"

text \<open>
  One turn of the \<^verbatim>\<open>for\<close> loop: the result starts as \<^verbatim>\<open>pending\<close>, takes the four fields
  of the reply, is pushed on \<^verbatim>\<open>test.results\<close> and reported.
\<close>

definition attempt :: "worker \<Rightarrow> nat \<Rightarrow> TestCase \<times> event list \<Rightarrow> TestResult \<times> TestCase \<times> event list" where
  "attempt callWorker i st =
     (let t = fst st;
          testResult = \<lparr>status = Pending, error = None, duration = 0, snapshots = []\<rparr>;
          reply = callWorker t i;
          testResult = testResult\<lparr>status := status (fst reply)\<rparr>;
          testResult = testResult\<lparr>duration := duration (fst reply)\<rparr>;
          testResult = testResult\<lparr>error := error (fst reply)\<rparr>;
          testResult = testResult\<lparr>snapshots := snapshots (fst reply)\<rparr>
      in (testResult,
          t\<lparr>results := results t @ [testResult]\<rparr>,
          snd st @ snd reply @ [EndTest (testId t) testResult]))"

function attempts :: "worker \<Rightarrow> nat \<Rightarrow> nat \<Rightarrow> TestCase \<times> event list \<Rightarrow> TestCase \<times> event list" where
  "attempts callWorker bound i st =
     (if i < bound then
        (let r = attempt callWorker i st
         in if status (fst r) = Expected \<or> status (fst r) = Skipped then snd r
            else attempts callWorker bound (i + 1) (snd r))
      else st)"
  by pat_completeness auto
termination
  by (relation "measure (\<lambda>(w, bound, i, st). bound - i)") auto

declare attempts.simps [simp del]

text \<open>The condition of the \<^verbatim>\<open>break\<close>, on a recorded result.\<close>

definition stops :: "TestResult \<Rightarrow> bool" where
  "stops r = (status r = Expected \<or> status r = Skipped)"

definition test_task :: "string set \<Rightarrow> int \<Rightarrow> worker \<Rightarrow> TestCase \<Rightarrow> TestCase \<times> event list" where
  "test_task filteredTestIds getRetries callWorker t =
     (if testId t \<notin> filteredTestIds then (t, [])
      else attempts callWorker (max_attempts getRetries) 0 (t, []))"

text \<open>
  Modelled from the spec: the \<^verbatim>\<open>runTestWorker\<close> that \<^verbatim>\<open>runSuites\<close> calls (five arguments,
  reply with a \<^verbatim>\<open>status\<close>) is not among the sources, which hold an earlier variant
  with four arguments and a reply \<^verbatim>\<open>{error, passed, duration}\<close>. The specification
  (4.C): "If the test is annotated skip, emit skipped and stop. Else dispatch to the
  Pool", then the recorded status by the table: success is \<^verbatim>\<open>expected\<close> and failure
  \<^verbatim>\<open>unexpected\<close>, swapped under the annotation \<^verbatim>\<open>fail\<close>; a timeout is \<^verbatim>\<open>unexpected\<close>.
\<close>

datatype WorkerOutcome = Success | Failure | TimedOut


text \<open>
  Modelled from the spec: the table "Status mapping from worker outcomes" of 4.C; the
  mapping belongs to the worker call that is not among the sources.
\<close>

definition recorded_status :: "string list \<Rightarrow> WorkerOutcome \<Rightarrow> TestStatus" where
  "recorded_status annots w =
     (case w of
        Success \<Rightarrow> (if ''fail'' \<in> set annots then Unexpected else Expected)
      | Failure \<Rightarrow> (if ''fail'' \<in> set annots then Expected else Unexpected)
      | TimedOut \<Rightarrow> Unexpected)"



section \<open>The worker call (worker.ts)\<close>

text \<open>
  \<^verbatim>\<open>runTestWorker\<close> of \<^verbatim>\<open>worker.ts\<close> (four arguments, reply \<^verbatim>\<open>{error, passed, duration}\<close>).
  What the pool does with a call is an input: the payloads it hands to the \<^verbatim>\<open>on\<close>
  handler while the call is pending, each with its time in ms after the call, and when
  and how the promise of \<^verbatim>\<open>pool.exec\<close> settles by itself, if ever.
\<close>

record WorkerResult =
  resultError :: "string option"
  passed :: bool
  resultDuration :: int

record Payload =
  errorMessage :: "string option"
  payloadDuration :: int
  startTime :: "int option"

datatype Thrown = ThrownString string | TimeoutError | ThrownError "string option" string | ThrownOther

datatype 'a settled = Fulfilled 'a | Rejected Thrown

record Execution =
  payloads :: "(nat \<times> Payload) list"
  settles :: "(nat \<times> unit settled) option"

text \<open>
  \<^verbatim>\<open>Promise.timeout(delay)\<close> of the workerpool library: a promise still pending after
  \<open>delay\<close> ms is rejected with a \<^verbatim>\<open>TimeoutError\<close> at that time, and the worker is
  terminated, so nothing of it is seen afterwards.
\<close>

definition Promise_timeout :: "int \<Rightarrow> Execution \<Rightarrow> Execution" where
  "Promise_timeout delay e =
     (if (case settles e of None \<Rightarrow> True | Some (ts, s) \<Rightarrow> delay \<le> int ts)
      then \<lparr>payloads = filter (\<lambda>(tp, p). int tp < delay) (payloads e),
            settles = Some (nat delay, Rejected TimeoutError)\<rparr>
      else e)"

text \<open>JavaScript truthiness of an optional string and of an optional number.\<close>

definition truthy_string :: "string option \<Rightarrow> bool" where
  "truthy_string s = (case s of None \<Rightarrow> False | Some x \<Rightarrow> x \<noteq> [])"

definition truthy_number :: "int option \<Rightarrow> bool" where
  "truthy_number n = (case n of None \<Rightarrow> False | Some x \<Rightarrow> x \<noteq> 0)"

text \<open>
  The state of the promise that \<^verbatim>\<open>runTestWorker\<close> returns, and the variable \<^verbatim>\<open>startTime\<close>.
  \<^verbatim>\<open>resolve\<close> settles a pending promise and does nothing on a settled one.
\<close>

type_synonym worker_state = "WorkerResult option \<times> int"

definition resolve_with :: "WorkerResult \<Rightarrow> worker_state \<Rightarrow> worker_state" where
  "resolve_with r st = (case fst st of None \<Rightarrow> (Some r, snd st) | Some done \<Rightarrow> st)"

definition on_payload :: "Payload \<Rightarrow> worker_state \<Rightarrow> worker_state" where
  "on_payload payload st =
     (if truthy_string (errorMessage payload) then
        resolve_with \<lparr>resultError = errorMessage payload, passed = False,
                      resultDuration = payloadDuration payload\<rparr> st
      else if truthy_number (startTime payload) then (fst st, the (startTime payload))
      else st)"

definition timeout_message :: "int \<Rightarrow> string" where
  "timeout_message timeout =
     ''Error: worker was terminated as the timeout ('' @ string_of_nat (nat timeout) @ '' ms) as exceeded''"

text \<open>
  The \<^verbatim>\<open>catch\<close> block: a thrown value that is neither a string, a \<^verbatim>\<open>TimeoutError\<close> nor an
  \<^verbatim>\<open>Error\<close> resolves nothing.
\<close>

definition on_rejection :: "int \<Rightarrow> int \<Rightarrow> Thrown \<Rightarrow> worker_state \<Rightarrow> worker_state" where
  "on_rejection timeout now e st =
     (let duration = now - snd st
      in case e of
           ThrownString s \<Rightarrow> resolve_with \<lparr>resultError = Some s, passed = False, resultDuration = duration\<rparr> st
         | TimeoutError \<Rightarrow>
             resolve_with \<lparr>resultError = Some (timeout_message timeout), passed = False,
                           resultDuration = duration\<rparr> st
         | ThrownError stack msg \<Rightarrow>
             resolve_with \<lparr>resultError = Some (case stack of None \<Rightarrow> msg | Some s \<Rightarrow> s),
                           passed = False, resultDuration = duration\<rparr> st
         | ThrownOther \<Rightarrow> st)"

fun getMockSuite_chain :: "Suite option \<Rightarrow> Suite option" where
  "getMockSuite_chain None = None"
| "getMockSuite_chain (Some (Suite t ty p)) =
     (if ty \<noteq> DescribeT then Some (Suite t ty (getMockSuite_chain p)) else getMockSuite_chain p)"

definition getMockSuite :: "TestCase \<Rightarrow> Suite option" where
  "getMockSuite t = getMockSuite_chain (Some (suite t))"

text \<open>
  The result is \<open>None\<close> while the returned promise never settles, and \<open>Some\<close> of how it
  settles otherwise; \<open>now\<close> is \<^verbatim>\<open>Date.now()\<close> at the call. The pool is a function of the
  arguments of \<^verbatim>\<open>pool.exec\<close>.
\<close>

definition runTestWorker ::
  "TestCase \<Rightarrow> string \<Rightarrow> int \<Rightarrow> (string \<Rightarrow> Suite option \<Rightarrow> string \<Rightarrow> Execution) \<Rightarrow> int
     \<Rightarrow> WorkerResult settled option" where
  "runTestWorker test importPath timeout pool now =
     (let start = now;
          poolPromise = pool (testId test) (getMockSuite test) importPath;
          poolPromise = (if timeout > 0 then Promise_timeout timeout poolPromise else poolPromise);
          st = fold on_payload (map snd (payloads poolPromise)) (None, start);
          st = (case settles poolPromise of
                  None \<Rightarrow> st
                | Some (ts, Fulfilled u) \<Rightarrow>
                    resolve_with \<lparr>resultError = None, passed = True,
                                  resultDuration = now + int ts - snd st\<rparr> st
                | Some (ts, Rejected e) \<Rightarrow> on_rejection timeout (now + int ts) e st)
      in map_option Fulfilled (fst st))"

text \<open>
  Modelled from the spec: the kind of outcome of a dispatched call, for the table of 4.C
  (success, failure, timeout), read off the execution as \<^verbatim>\<open>runTestWorker\<close> sees it: an
  error message of the worker or a rejection is a failure, the rejection by the armed
  timeout is a timeout ("if set and no terminal event arrives before the deadline ...
  the call resolves as unexpected with a timeout diagnostic"), and a call that neither
  reports nor settles has no outcome. The code that classifies is not among the sources.
\<close>

definition worker_outcome :: "int \<Rightarrow> Execution \<Rightarrow> WorkerOutcome option" where
  "worker_outcome timeout e =
     (let p = (if timeout > 0 then Promise_timeout timeout e else e)
      in if list_ex (\<lambda>(tp, payload). truthy_string (errorMessage payload)) (payloads p)
         then Some Failure
         else case settles p of
                None \<Rightarrow> None
              | Some (ts, Fulfilled u) \<Rightarrow> Some Success
              | Some (ts, Rejected thrown) \<Rightarrow>
                  (case thrown of TimeoutError \<Rightarrow> Some TimedOut | _ \<Rightarrow> Some Failure))"

text \<open>
  Modelled from the spec: the result recorded for a dispatched attempt, "Receive
  {status, duration, error?, snapshots} and append a TestResult": the status by the
  table from the kind of outcome, the error and the duration as \<^verbatim>\<open>runTestWorker\<close> resolves
  them. The code that records a status from a worker result is not among the sources.
\<close>

definition recorded_result ::
  "string list \<Rightarrow> TestCase \<Rightarrow> string \<Rightarrow> int \<Rightarrow> (string \<Rightarrow> Suite option \<Rightarrow> string \<Rightarrow> Execution) \<Rightarrow> int
     \<Rightarrow> TestResult option" where
  "recorded_result annots test importPath timeout pool now =
     (case runTestWorker test importPath timeout pool now of
        Some (Fulfilled r) \<Rightarrow>
          (case worker_outcome timeout (pool (testId test) (getMockSuite test) importPath) of
             Some kind \<Rightarrow>
               Some \<lparr>status = recorded_status annots kind, error = resultError r,
                      duration = resultDuration r, snapshots = []\<rparr>
           | None \<Rightarrow> None)
      | _ \<Rightarrow> None)"

section \<open>The matcher \<^verbatim>\<open>toHaveValue\<close>\<close>

record Terminal =
  getBuffer :: "string list list"
  getViewableBuffer :: "string list list"

record MatcherOptions =
  timeout :: "nat option"
  full :: "bool option"

text \<open>
  A \<^verbatim>\<open>RegExp\<close> object as far as \<^verbatim>\<open>test\<close> reads and writes it: the pattern, given as the
  matcher that tells for a string and a start index where a match starting there ends,
  the flags \<^verbatim>\<open>g\<close> and \<^verbatim>\<open>y\<close>, and \<^verbatim>\<open>lastIndex\<close>.
\<close>

record RegExpObject =
  matchAt :: "string \<Rightarrow> nat \<Rightarrow> nat option"
  global :: bool
  sticky :: bool
  lastIndex :: nat

text \<open>
  \<^verbatim>\<open>RegExp.prototype.test\<close>, that is \<^verbatim>\<open>RegExpBuiltinExec\<close> of ECMAScript: the search starts at
  \<^verbatim>\<open>lastIndex\<close> for a global or sticky expression and at 0 otherwise, tries the start
  indices in turn (a sticky expression only the first), and fails past the end of the
  string. A global or sticky expression stores the end of the match in \<^verbatim>\<open>lastIndex\<close>,
  and 0 after a failure; the object is returned with the result.
\<close>

function exec_from :: "RegExpObject \<Rightarrow> string \<Rightarrow> nat \<Rightarrow> nat option" where
  "exec_from r s i =
     (if length s < i then None
      else case matchAt r s i of
             Some e \<Rightarrow> Some e
           | None \<Rightarrow> if sticky r then None else exec_from r s (i + 1))"
  by pat_completeness auto
termination
  by (relation "measure (\<lambda>(r, s, i). Suc (length s) - i)") auto

declare exec_from.simps [simp del]

definition RegExp_test :: "RegExpObject \<Rightarrow> string \<Rightarrow> bool \<times> RegExpObject" where
  "RegExp_test r s =
     (case exec_from r s (if global r \<or> sticky r then lastIndex r else 0) of
        None \<Rightarrow> (False, if global r \<or> sticky r then r\<lparr>lastIndex := 0\<rparr> else r)
      | Some e \<Rightarrow> (True, if global r \<or> sticky r then r\<lparr>lastIndex := e\<rparr> else r))"

datatype ExpectedValue = ExpectedString string | ExpectedRegExp RegExpObject

text \<open>\<^verbatim>\<open>String.prototype.includes\<close>.\<close>

definition string_includes :: "string \<Rightarrow> string \<Rightarrow> bool" where
  "string_includes s searchString = sublist searchString s"

text \<open>
  The callback handed to \<^verbatim>\<open>poll\<close>, on the terminal as it is when the callback runs. It
  calls \<^verbatim>\<open>test\<close> on the one object \<^verbatim>\<open>expected\<close>, so it returns the object as the call
  leaves it, for the next sample.
\<close>

definition selected_buffer :: "Terminal \<Rightarrow> MatcherOptions option \<Rightarrow> string list list" where
  "selected_buffer terminal options =
     (if (case options of None \<Rightarrow> False | Some opts \<Rightarrow> full opts = Some True)
      then getBuffer terminal
      else getViewableBuffer terminal)"

definition toHaveValue_callback ::
  "Terminal \<Rightarrow> ExpectedValue \<Rightarrow> MatcherOptions option \<Rightarrow> bool \<times> ExpectedValue" where
  "toHaveValue_callback terminal expected options =
     (let buffer = join [] (map (\<lambda>bufferLine. join [] bufferLine) (selected_buffer terminal options))
      in case expected of
           ExpectedString s \<Rightarrow> (string_includes buffer s, expected)
         | ExpectedRegExp r \<Rightarrow> (fst (RegExp_test r buffer), ExpectedRegExp (snd (RegExp_test r buffer))))"

text \<open>
  Modelled from the spec: \<^verbatim>\<open>utils/poll.ts\<close> is not among the sources. The specification
  (4.F): "Given predicate p, interval i, deadline d, and inversion inv: sample
  immediately, then every i ms until either the resolved condition holds or the deadline
  passes"; a positive match polls "until predicate true or deadline", a negated one
  "until predicate false or deadline". Time is counted in ms from the call and a sample
  takes none; the callback is given the time of the sample and the state that the
  sample before left (for \<^verbatim>\<open>toHaveValue\<close>, the object \<^verbatim>\<open>expected\<close>). The value returned is
  the \<^verbatim>\<open>pass\<close> of the matcher, which \<^verbatim>\<open>toHaveValue\<close> reads as "the value was found" under
  both polarities (it reports a failure for \<^verbatim>\<open>!pass && !isNot\<close> and for
  \<^verbatim>\<open>pass && isNot\<close>): the sampled value when the poll is resolved, and the inversion flag
  at the deadline. With it come the time of the last sample and the state after it. An
  interval of 0 would sample for ever at one instant of this clock, so it stops the poll.
\<close>

function poll_from ::
  "(nat \<Rightarrow> 's \<Rightarrow> bool \<times> 's) \<Rightarrow> nat \<Rightarrow> nat \<Rightarrow> bool \<Rightarrow> nat \<Rightarrow> 's \<Rightarrow> bool \<times> nat \<times> 's" where
  "poll_from callback delay deadline isNot now st =
     (let result = callback now st
      in if fst result \<noteq> isNot then (fst result, now, snd result)
         else if delay = 0 \<or> deadline < now + delay then (isNot, now, snd result)
         else poll_from callback delay deadline isNot (now + delay) (snd result))"
  by pat_completeness auto
termination
  by (relation "measure (\<lambda>(callback, delay, deadline, isNot, now, st). Suc deadline - now)") auto

declare poll_from.simps [simp del]

text \<open>
  Modelled from the spec: \<^verbatim>\<open>poll(callback, delay, timeout, isNot)\<close> as \<^verbatim>\<open>toHaveValue\<close> calls
  it, the first sample at time 0; the state after the last sample comes with the value.
\<close>

definition poll :: "(nat \<Rightarrow> 's \<Rightarrow> bool \<times> 's) \<Rightarrow> nat \<Rightarrow> nat \<Rightarrow> bool \<Rightarrow> 's \<Rightarrow> bool \<times> 's" where
  "poll callback delay deadline isNot st =
     (let r = poll_from callback delay deadline isNot 0 st in (fst r, snd (snd r)))"

text \<open>
  The message of the result, without the colouring: which of the two failure texts, with
  the comparison method it names, or \<^verbatim>\<open>"passed"\<close>.
\<close>

datatype MatcherMessage = NoMatchFound string | MatchFound string | PassedMessage

record MatcherResult =
  pass :: bool
  message :: MatcherMessage

definition comparisonMethod :: "ExpectedValue \<Rightarrow> string" where
  "comparisonMethod expected =
     (case expected of
        ExpectedString s \<Rightarrow> ''String.prototype.includes search''
      | ExpectedRegExp r \<Rightarrow> ''RegExp.prototype.test search'')"

text \<open>
  \<open>isNot\<close> is \<^verbatim>\<open>this.isNot\<close>, \<open>terminal\<close> gives the terminal at each time, and
  \<open>getExpectTimeout\<close> is the value of the configuration. The result comes with the
  object \<^verbatim>\<open>expected\<close> as the samples leave it.
\<close>

definition timeout_or_default :: "MatcherOptions option \<Rightarrow> nat \<Rightarrow> nat" where
  "timeout_or_default options getExpectTimeout =
     (case (case options of None \<Rightarrow> None | Some opts \<Rightarrow> timeout opts) of
        None \<Rightarrow> getExpectTimeout
      | Some ms \<Rightarrow> ms)"

definition toHaveValue ::
  "bool \<Rightarrow> (nat \<Rightarrow> Terminal) \<Rightarrow> ExpectedValue \<Rightarrow> MatcherOptions option \<Rightarrow> nat
     \<Rightarrow> MatcherResult \<times> ExpectedValue" where
  "toHaveValue isNot terminal expected options getExpectTimeout =
     (let polled = poll (\<lambda>now e. toHaveValue_callback (terminal now) e options) 50
                     (timeout_or_default options getExpectTimeout) isNot expected;
          pass = fst polled
      in (\<lparr>pass = pass,
           message =
             (if \<not> pass \<and> \<not> isNot then NoMatchFound (comparisonMethod expected)
              else if pass \<and> isNot then MatchFound (comparisonMethod expected)
              else PassedMessage)\<rparr>,
          snd polled))"

text \<open>
  An assertion of the \<^verbatim>\<open>expect\<close> library holds when \<^verbatim>\<open>pass\<close> differs from \<^verbatim>\<open>isNot\<close>; these
  are the results whose message is \<^verbatim>\<open>"passed"\<close>.
\<close>

definition matcher_succeeds :: "bool \<Rightarrow> MatcherResult \<Rightarrow> bool" where
  "matcher_succeeds isNot r = (pass r \<noteq> isNot)"

text \<open>
  The samples of a poll that starts at \<open>now\<close> in state \<open>st\<close>, by number: sample \<open>k\<close> is
  taken at \<open>now + k * delay\<close> ms, in the state that sample \<open>k - 1\<close> left. The value is the
  result of sample \<open>k\<close> and the state after it.
\<close>

fun sample_from :: "(nat \<Rightarrow> 's \<Rightarrow> bool \<times> 's) \<Rightarrow> nat \<Rightarrow> nat \<Rightarrow> 's \<Rightarrow> nat \<Rightarrow> bool \<times> 's" where
  "sample_from callback delay now st 0 = callback now st"
| "sample_from callback delay now st (Suc k) =
     sample_from callback delay (now + delay) (snd (callback now st)) k"

text \<open>
  The samples of \<^verbatim>\<open>toHaveValue\<close>: every 50 ms from 0, each on the terminal of its time.
\<close>

definition toHaveValue_sample ::
  "(nat \<Rightarrow> Terminal) \<Rightarrow> ExpectedValue \<Rightarrow> MatcherOptions option \<Rightarrow> nat \<Rightarrow> bool \<times> ExpectedValue" where
  "toHaveValue_sample terminal expected options k =
     sample_from (\<lambda>now e. toHaveValue_callback (terminal now) e options) 50 0 expected k"

text \<open>
  An expected value whose test keeps no state: a string, or a regular expression that is
  neither global nor sticky.
\<close>

definition stateless :: "ExpectedValue \<Rightarrow> bool" where
  "stateless expected =
     (case expected of
        ExpectedString s \<Rightarrow> True
      | ExpectedRegExp r \<Rightarrow> \<not> global r \<and> \<not> sticky r)"

section \<open>The declaration API (test.ts)\<close>

text \<open>
  The globals \<^verbatim>\<open>globalThis.suite\<close> and \<^verbatim>\<open>globalThis.tests\<close> (which may be absent), and the
  pushes made on the \<^verbatim>\<open>tests\<close> arrays of the suites, in order: the array of a suite holds
  the pushed tests whose \<^verbatim>\<open>suite\<close> is that suite. The location that \<^verbatim>\<open>getTestLocation\<close>
  reads off the stack is an argument. \<^verbatim>\<open>test.skip\<close> and \<^verbatim>\<open>test.fail\<close> pass a fifth argument to
  the constructor, which takes four.
\<close>

record Globals =
  global_suite :: Suite
  global_tests :: "(string \<rightharpoonup> TestCase) option"
  suite_tests :: "TestCase list"

definition register :: "TestCase \<Rightarrow> Globals \<Rightarrow> Globals" where
  "register t g =
     (case global_tests g of
        None \<Rightarrow> g
      | Some m \<Rightarrow> g\<lparr>global_tests := Some (m(testId t \<mapsto> t))\<rparr>)"

definition test :: "string \<Rightarrow> Location \<Rightarrow> TestFunction \<Rightarrow> Globals \<Rightarrow> Globals" where
  "test ttl loc fn g =
     (let t = new_TestCase ttl loc fn (global_suite g);
          g = register t g
      in g\<lparr>suite_tests := suite_tests g @ [t]\<rparr>)"

definition skip :: "string \<Rightarrow> Location \<Rightarrow> TestFunction \<Rightarrow> Globals \<Rightarrow> Globals" where
  "skip ttl loc fn g =
     (let t = new_TestCase ttl loc fn (global_suite g);
          g = register t g
      in g\<lparr>suite_tests := suite_tests g @ [t]\<rparr>)"

definition fail :: "string \<Rightarrow> Location \<Rightarrow> TestFunction \<Rightarrow> Globals \<Rightarrow> Globals" where
  "fail ttl loc fn g =
     (let t = new_TestCase ttl loc fn (global_suite g)
      in g\<lparr>suite_tests := suite_tests g @ [t]\<rparr>)"

text \<open>
  A call of the declaration API; the callback of \<^verbatim>\<open>test.describe\<close> is the list of the calls
  it makes. \<^verbatim>\<open>test.use\<close> only touches the options of the suite, which are not modelled.
\<close>

datatype Declaration =
    Test string Location TestFunction
  | Skip string Location TestFunction
  | Fail string Location TestFunction
  | Describe string "Declaration list"

fun declare_one :: "Declaration \<Rightarrow> Globals \<Rightarrow> Globals"
  and declare_all :: "Declaration list \<Rightarrow> Globals \<Rightarrow> Globals" where
  "declare_one (Test ttl loc fn) g = test ttl loc fn g"
| "declare_one (Skip ttl loc fn) g = skip ttl loc fn g"
| "declare_one (Fail ttl loc fn) g = fail ttl loc fn g"
| "declare_one (Describe ttl callback) g =
     (let parentSuite = global_suite g;
          currentSuite = Suite ttl DescribeT (Some parentSuite);
          g = g\<lparr>global_suite := currentSuite\<rparr>;
          g = declare_all callback g
      in g\<lparr>global_suite := parentSuite\<rparr>)"
| "declare_all [] g = g"
| "declare_all (d # ds) g = declare_all ds (declare_one d g)"

text \<open>
  The test cases that a sequence of calls constructs under an ambient suite, in order,
  each with the mark of a call that writes the registry (\<^verbatim>\<open>test\<close>, \<^verbatim>\<open>test.skip\<close>) or not
  (\<^verbatim>\<open>test.fail\<close>).
\<close>

fun constructed_one :: "Suite \<Rightarrow> Declaration \<Rightarrow> (bool \<times> TestCase) list"
  and constructed :: "Suite \<Rightarrow> Declaration list \<Rightarrow> (bool \<times> TestCase) list" where
  "constructed_one s (Test ttl loc fn) = [(True, new_TestCase ttl loc fn s)]"
| "constructed_one s (Skip ttl loc fn) = [(True, new_TestCase ttl loc fn s)]"
| "constructed_one s (Fail ttl loc fn) = [(False, new_TestCase ttl loc fn s)]"
| "constructed_one s (Describe ttl callback) = constructed (Suite ttl DescribeT (Some s)) callback"
| "constructed s [] = []"
| "constructed s (d # ds) = constructed_one s d @ constructed s ds"

definition registered :: "(bool \<times> TestCase) list \<Rightarrow> TestCase list" where
  "registered cs = map snd (filter fst cs)"

definition store_all :: "TestCase list \<Rightarrow> (string \<rightharpoonup> TestCase) \<Rightarrow> (string \<rightharpoonup> TestCase)" where
  "store_all ts m = fold (\<lambda>t m. m(testId t \<mapsto> t)) ts m"

text \<open>
  The lookup of \<^verbatim>\<open>runTest\<close> in the worker: \<^verbatim>\<open>globalThis.tests[testId]\<close>, then \<^verbatim>\<open>test.suite\<close>,
  a TypeError on \<^verbatim>\<open>undefined\<close>.
\<close>

datatype TypeError = TypeError

definition runTest_lookup :: "Globals \<Rightarrow> string \<Rightarrow> TypeError + TestCase" where
  "runTest_lookup g testId' =
     (case (case global_tests g of None \<Rightarrow> Map.empty | Some m \<Rightarrow> m) testId' of
        None \<Rightarrow> Inl TypeError
      | Some t \<Rightarrow> Inr t)"

section \<open>Concrete inputs\<close>

definition example_file :: Suite where
  "example_file = Suite ''a.ts'' FileT (Some (Suite ''unit'' ProjectT (Some (Suite [] RootT None))))"

definition example_test :: TestCase where
  "example_test = new_TestCase ''t'' \<lparr>row = 1, column = 1\<rparr> 0 example_file"

definition resolve_repo :: "string \<Rightarrow> string" where
  "resolve_repo p = ''/repo/'' @ p"

definition regexp_test :: "RegExp option \<Rightarrow> string \<Rightarrow> bool option" where
  "regexp_test r s = map_option (\<lambda>p. p s) r"

definition always_unexpected :: worker where
  "always_unexpected t i =
     (\<lparr>status = Unexpected, error = Some ''boom'', duration = 1, snapshots = []\<rparr>,
      [PoolExec (testId t)])"

definition example_test2 :: TestCase where
  "example_test2 = new_TestCase ''u'' \<lparr>row = 5, column = 1\<rparr> 1 example_file"


definition pass_on_second :: worker where
  "pass_on_second t i =
     (if i = 0 then \<lparr>status = Unexpected, error = Some ''boom'', duration = 1, snapshots = []\<rparr>
      else \<lparr>status = Expected, error = None, duration = 2, snapshots = []\<rparr>,
      [PoolExec (testId t)])"


definition dot_filter :: string where
  "dot_filter = ''a'' @ [backslash] @ ''.ts''"


definition hanging_pool :: "string \<Rightarrow> Suite option \<Rightarrow> string \<Rightarrow> Execution" where
  "hanging_pool testId' testSuite importPath =
     \<lparr>payloads = [(3, \<lparr>errorMessage = None, payloadDuration = 0, startTime = Some 1000\<rparr>)],
      settles = None\<rparr>"

definition blank_screen :: Terminal where
  "blank_screen = \<lparr>getBuffer = [['' '', '' ''], ['' '', '' '']], getViewableBuffer = [['' '', '' ''], ['' '', '' '']]\<rparr>"

definition prompt_screen :: Terminal where
  "prompt_screen = \<lparr>getBuffer = [[''o'', ''k''], [''>'', '' ''], ['' '', '' '']],
                     getViewableBuffer = [[''>'', '' ''], ['' '', '' '']]\<rparr>"

definition prompt_after_120 :: "nat \<Rightarrow> Terminal" where
  "prompt_after_120 now = (if now < 120 then blank_screen else prompt_screen)"

definition prompt_until_120 :: "nat \<Rightarrow> Terminal" where
  "prompt_until_120 now = (if now < 120 then prompt_screen else blank_screen)"

definition stable_terminal :: "nat \<Rightarrow> Terminal" where
  "stable_terminal now = prompt_screen"






definition worker_globals :: Globals where
  "worker_globals = \<lparr>global_suite = example_file, global_tests = Some Map.empty, suite_tests = []\<rparr>"

definition same_title_declarations :: "Declaration list" where
  "same_title_declarations =
     [Test ''a'' \<lparr>row = 0, column = 0\<rparr> 1, Fail ''a'' \<lparr>row = 0, column = 0\<rparr> 2]"

section \<open>Outcome of a test case\<close>

lemma outcome_loop_spec:
  "outcome_loop st rs = outcome_spec (st # map status rs)"
proof (induction rs arbitrary: st)
  case Nil
  show ?case by (simp add: outcome_spec_def)
next
  case (Cons r rs)
  show ?case
    by (simp add: Cons.IH outcome_spec_def flaky_transition_def)
qed

text \<open>
  C1. \<^verbatim>\<open>outcome()\<close> is \<^verbatim>\<open>skipped\<close> on an empty result list; otherwise it is \<^verbatim>\<open>flaky\<close> when
  two consecutive results step from \<^verbatim>\<open>unexpected\<close> to \<^verbatim>\<open>expected\<close> or from \<^verbatim>\<open>expected\<close>
  to a status other than \<^verbatim>\<open>expected\<close>, and the status of the last result otherwise. The
  four results the specification lists are the loop's values.
\<close>

theorem outcome_fold:
  "outcome t = outcome_spec (map status (results t))"
  by (cases "results t") (simp_all add: outcome_def outcome_loop_spec, simp add: outcome_spec_def)

theorem outcome_fold_witness:
  "outcome (example_test\<lparr>results := []\<rparr>) = Skipped
   \<and> outcome (example_test\<lparr>results := [\<lparr>status = Expected, error = None, duration = 7, snapshots = []\<rparr>]\<rparr>) = Expected
   \<and> outcome (example_test\<lparr>results := [\<lparr>status = Unexpected, error = Some ''boom'', duration = 7, snapshots = []\<rparr>,
                            \<lparr>status = Expected, error = None, duration = 5, snapshots = []\<rparr>]\<rparr>) = Flaky
   \<and> outcome (example_test\<lparr>results := [\<lparr>status = Expected, error = None, duration = 5, snapshots = []\<rparr>,
                            \<lparr>status = Unexpected, error = Some ''boom'', duration = 7, snapshots = []\<rparr>]\<rparr>) = Flaky
   \<and> outcome (example_test\<lparr>results := [\<lparr>status = Unexpected, error = Some ''boom'', duration = 7, snapshots = []\<rparr>,
                            \<lparr>status = Unexpected, error = Some ''boom'', duration = 9, snapshots = []\<rparr>]\<rparr>) = Unexpected"
  by (simp add: outcome_fold outcome_spec_def flaky_transition_def)

section \<open>Identity of a test case\<close>

lemma join_empty_sep: "join [] xs = concat xs"
  by (induction "[] :: string" xs rule: join.induct) simp_all

lemma push_title_emitted:
  "push_title loc s titles = titles @ (case emitted (row loc) s of None \<Rightarrow> [] | Some x \<Rightarrow> [x])"
  by (cases "type s") (simp_all add: push_title_def emitted_def)

lemma titlePath_loop_emitted:
  "titlePath_loop loc so titles = titles @ List.map_filter (emitted (row loc)) (ancestors so)"
proof (induction loc so titles rule: titlePath_loop.induct)
  case (1 loc titles)
  show ?case by (simp add: map_filter_simps)
next
  case (2 loc t ty p titles)
  show ?case
    unfolding titlePath_loop.simps "2.IH"
    by (simp add: push_title_emitted map_filter_simps split: option.split)
qed

lemma titlePath_eq_spec: "titlePath ttl loc s = titlePath_spec ttl (row loc) s"
  by (simp add: titlePath_def titlePath_spec_def titlePath_loop_emitted)

text \<open>
  C2 (as the code has it). The id of a test case is the plain concatenation of its title
  path: what the ancestors emit, root first, then the test's title. The id depends on the
  title, the declaration row and the ancestor chain only: test cases that agree on these
  have the same id, whatever their column or test function.
\<close>

theorem testId_title_path:
  "testId (new_TestCase ttl loc fn s) = concat (titlePath_spec ttl (row loc) s)
   \<and> (row loc' = row loc \<longrightarrow>
        testId (new_TestCase ttl loc' fn' s) = testId (new_TestCase ttl loc fn s))"
  by (simp add: new_TestCase_def join_empty_sep titlePath_eq_spec)

theorem testId_title_path_witness:
  "testId (new_TestCase ''works'' \<lparr>row = 12, column = 3\<rparr> 0
      (Suite ''group'' DescribeT (Some (Suite ''a.test.ts'' FileT
        (Some (Suite ''unit'' ProjectT (Some (Suite [] RootT None))))))))
     = ''[unit]a.test.ts:12:12groupworks''
   \<and> row \<lparr>row = 12, column = 40\<rparr> = row \<lparr>row = 12, column = 3\<rparr>
   \<and> testId (new_TestCase ''works'' \<lparr>row = 12, column = 40\<rparr> 1
      (Suite ''group'' DescribeT (Some (Suite ''a.test.ts'' FileT
        (Some (Suite ''unit'' ProjectT (Some (Suite [] RootT None))))))))
     = ''[unit]a.test.ts:12:12groupworks''"
  using testId_title_path [of "''works''" "\<lparr>row = 12, column = 3\<rparr>" 0
      "Suite ''group'' DescribeT (Some (Suite ''a.test.ts'' FileT
        (Some (Suite ''unit'' ProjectT (Some (Suite [] RootT None))))))"
      "\<lparr>row = 12, column = 40\<rparr>" 1]
  by (simp add: titlePath_spec_def map_filter_simps emitted_def string_of_nat.simps digits_def)

text \<open>
  The second half of C2 as stated fails: two test cases declared with the same title in
  the same file suite, both at the fallback location (0, 0), are distinct (their test
  functions differ) and have the same id.
\<close>

theorem testId_shared_counterexample:
  "new_TestCase ''t'' \<lparr>row = 0, column = 0\<rparr> 1 (Suite ''a.test.ts'' FileT None)
     \<noteq> new_TestCase ''t'' \<lparr>row = 0, column = 0\<rparr> 2 (Suite ''a.test.ts'' FileT None)
   \<and> testId (new_TestCase ''t'' \<lparr>row = 0, column = 0\<rparr> 1 (Suite ''a.test.ts'' FileT None))
     = testId (new_TestCase ''t'' \<lparr>row = 0, column = 0\<rparr> 2 (Suite ''a.test.ts'' FileT None))"
  by (simp add: new_TestCase_def)

section \<open>Selection of the tests\<close>



lemma those_map_None: "those (map g xs) = None \<longleftrightarrow> (\<exists>x\<in>set xs. g x = None)"
  by (induction xs) (auto split: option.splits)

lemma those_map_Some: "those (map g xs) = Some ps \<Longrightarrow> ps = map (\<lambda>x. the (g x)) xs"
  by (induction xs arbitrary: ps) (auto split: option.splits)

lemma find_exists: "(\<exists>y. find P xs = Some y) \<longleftrightarrow> (\<exists>x\<in>set xs. P x)"
  using find_None_iff [of P xs] by auto


lemma refine_with_filters_some:
  assumes "testFilter options = Some filters" and "filters \<noteq> []"
  shows "((\<exists>f\<in>set filters. RegExp_new (replaceAll_backslash f) = None) \<longrightarrow>
            refine_with_filters RegExp_new resolve options allTests = Exit 1 invalid_filter_message)
       \<and> ((\<forall>f\<in>set filters. RegExp_new (replaceAll_backslash f) \<noteq> None) \<longrightarrow>
            refine_with_filters RegExp_new resolve options allTests =
              Running (filter
                (\<lambda>t. \<exists>f\<in>set filters.
                       the (RegExp_new (replaceAll_backslash f))
                         (resolve (case filePath t of None \<Rightarrow> [] | Some p \<Rightarrow> p)))
                allTests))"
proof (intro conjI impI)
  assume "\<exists>f\<in>set filters. RegExp_new (replaceAll_backslash f) = None"
  then have "those (map (\<lambda>f. RegExp_new (replaceAll_backslash f)) filters) = None"
    by (simp add: those_map_None)
  with assms show "refine_with_filters RegExp_new resolve options allTests = Exit 1 invalid_filter_message"
    by (simp add: refine_with_filters_def)
next
  assume ok: "\<forall>f\<in>set filters. RegExp_new (replaceAll_backslash f) \<noteq> None"
  then obtain ps where ps: "those (map (\<lambda>f. RegExp_new (replaceAll_backslash f)) filters) = Some ps"
    using those_map_None [of "\<lambda>f. RegExp_new (replaceAll_backslash f)" filters] by auto
  then have eq: "ps = map (\<lambda>f. the (RegExp_new (replaceAll_backslash f))) filters"
    by (rule those_map_Some)
  show "refine_with_filters RegExp_new resolve options allTests =
              Running (filter
                (\<lambda>t. \<exists>f\<in>set filters.
                       the (RegExp_new (replaceAll_backslash f))
                         (resolve (case filePath t of None \<Rightarrow> [] | Some p \<Rightarrow> p)))
                allTests)"
    using assms ps by (simp add: refine_with_filters_def find_exists eq)
qed

text \<open>
  C7 (as the code has it). With a non-empty \<^verbatim>\<open>testFilter\<close>, every filter string has each
  of its backslashes doubled and is then compiled as a regular expression. If one of the
  doubled strings is not a valid pattern, the run ends with exit code 1 and the
  diagnostic; otherwise exactly the tests whose resolved file path matches at least one
  compiled pattern are retained.
\<close>

theorem filter_step:
  assumes "testFilter options = Some filters" and "filters \<noteq> []"
  shows "((\<exists>f\<in>set filters. RegExp_new (replaceAll_backslash f) = None) \<longrightarrow>
            refine_with_filters RegExp_new resolve options allTests = Exit 1 invalid_filter_message)
       \<and> ((\<forall>f\<in>set filters. RegExp_new (replaceAll_backslash f) \<noteq> None) \<longrightarrow>
            refine_with_filters RegExp_new resolve options allTests =
              Running (filter
                (\<lambda>t. \<exists>f\<in>set filters.
                       the (RegExp_new (replaceAll_backslash f))
                         (resolve (case filePath t of None \<Rightarrow> [] | Some p \<Rightarrow> p)))
                allTests))"
  using assms by (rule refine_with_filters_some)

lemma example_path: "filePath example_test = Some ''a.ts''" "filePath example_test2 = Some ''a.ts''"
  by (simp_all add: filePath_def example_test_def example_test2_def new_TestCase_def example_file_def)

theorem filter_step_witness:
  "testFilter \<lparr>updateSnapshot = False, testFilter = Some [''b.ts'', ''a.ts'']\<rparr> = Some [''b.ts'', ''a.ts'']
   \<and> [''b.ts'', ''a.ts''] \<noteq> []
   \<and> refine_with_filters RegExp_fragment resolve_repo
        \<lparr>updateSnapshot = False, testFilter = Some [''b.ts'', ''a.ts'']\<rparr> [example_test]
      = Running [example_test]
   \<and> refine_with_filters RegExp_fragment resolve_repo
        \<lparr>updateSnapshot = False, testFilter = Some [''b.ts'', ''(a'']\<rparr> [example_test]
      = Exit 1 invalid_filter_message"
  using filter_step [of "\<lparr>updateSnapshot = False, testFilter = Some [''b.ts'', ''a.ts'']\<rparr>"
        "[''b.ts'', ''a.ts'']" RegExp_fragment resolve_repo "[example_test]"]
      filter_step [of "\<lparr>updateSnapshot = False, testFilter = Some [''b.ts'', ''(a'']\<rparr>"
        "[''b.ts'', ''(a'']" RegExp_fragment resolve_repo "[example_test]"]
  by (simp add: RegExp_fragment_def replaceAll_backslash_def backslash_def syntax_characters_def
      example_path resolve_repo_def)

text \<open>
  C7 as stated fails on the fragment engine. The filter \<^verbatim>\<open>a\.ts\<close>, read as a regular
  expression, matches the resolved path \<^verbatim>\<open>/repo/a.ts\<close>, yet the test of that file is
  not retained: the pattern compiled is \<^verbatim>\<open>a\\.ts\<close>, which asks for a backslash. And
  the filter made of one backslash is an invalid regular expression, yet the run goes on
  (with no test retained) instead of ending.
\<close>

theorem filter_regexp_counterexample:
  "regexp_test (RegExp_fragment dot_filter) (resolve_repo ''a.ts'') = Some True
   \<and> filePath example_test = Some ''a.ts''
   \<and> refine_with_filters RegExp_fragment resolve_repo
        \<lparr>updateSnapshot = False, testFilter = Some [dot_filter]\<rparr> [example_test] = Running []
   \<and> RegExp_fragment [backslash] = None
   \<and> refine_with_filters RegExp_fragment resolve_repo
        \<lparr>updateSnapshot = False, testFilter = Some [[backslash]]\<rparr> [example_test] = Running []"
  by (simp add: refine_with_filters_def regexp_test_def RegExp_fragment_def replaceAll_backslash_def
      backslash_def syntax_characters_def example_path resolve_repo_def dot_filter_def)

section \<open>Attempts of one test\<close>

lemma attempt_fst: "fst (attempt w i st) = fst (w (fst st) i)"
  by (simp add: attempt_def Let_def)

lemma attempt_results:
  "results (fst (snd (attempt w i st))) = results (fst st) @ [fst (w (fst st) i)]"
  by (simp add: attempt_def Let_def)

lemma attempts_results:
  "\<exists>new. results (fst (attempts w bound i st)) = results (fst st) @ new
     \<and> length new \<le> bound - i
     \<and> (i < bound \<longrightarrow> new \<noteq> [])
     \<and> (\<forall>r\<in>set (butlast new). \<not> stops r)
     \<and> (new \<noteq> [] \<longrightarrow> stops (last new) \<or> length new = bound - i)"
proof (induction w bound i st rule: attempts.induct)
  case (1 w bound i st)
  show ?case
  proof (cases "i < bound")
    case False
    then show ?thesis by (simp add: attempts.simps)
  next
    case True
    define r where "r = attempt w i st"
    show ?thesis
    proof (cases "stops (fst r)")
      case True
      with \<open>i < bound\<close> have "attempts w bound i st = snd r"
        by (simp add: attempts.simps [of w bound i st] r_def stops_def Let_def)
      then have "results (fst (attempts w bound i st)) = results (fst st) @ [fst r]"
        by (simp add: r_def attempt_results attempt_fst)
      with True \<open>i < bound\<close> show ?thesis by auto
    next
      case False
      with \<open>i < bound\<close> have eq: "attempts w bound i st = attempts w bound (i + 1) (snd r)"
        by (simp add: attempts.simps [of w bound i st] r_def stops_def Let_def)
      from False \<open>i < bound\<close> obtain new where new:
        "results (fst (attempts w bound (i + 1) (snd r))) = results (fst (snd r)) @ new"
        "length new \<le> bound - (i + 1)"
        "\<forall>r\<in>set (butlast new). \<not> stops r"
        "new \<noteq> [] \<longrightarrow> stops (last new) \<or> length new = bound - (i + 1)"
        "i + 1 < bound \<longrightarrow> new \<noteq> []"
        using "1.IH" [of r] by (auto simp: r_def stops_def)
      have res: "results (fst (snd r)) = results (fst st) @ [fst r]"
        by (simp add: r_def attempt_results attempt_fst)
      show ?thesis
      proof (intro exI [of _ "fst r # new"] conjI)
        show "results (fst (attempts w bound i st)) = results (fst st) @ fst r # new"
          using eq new(1) res by simp
        show "length (fst r # new) \<le> bound - i"
          using new(2) \<open>i < bound\<close> by simp
        show "i < bound \<longrightarrow> fst r # new \<noteq> []" by simp
        show "\<forall>r\<in>set (butlast (fst r # new)). \<not> stops r"
          using new(3) False by auto
        show "fst r # new \<noteq> [] \<longrightarrow> stops (last (fst r # new)) \<or> length (fst r # new) = bound - i"
          using new(2,4,5) \<open>i < bound\<close> by (cases "new = []") auto
      qed
    qed
  qed
qed

lemma attempt_snd:
  "fst (snd (attempt w i st)) = (fst st)\<lparr>results := results (fst st) @ [fst (w (fst st) i)]\<rparr>"
  by (simp add: attempt_def Let_def)

lemma attempts_replies:
  "\<forall>new. results (fst (attempts w bound i st)) = results (fst st) @ new \<longrightarrow>
     (\<forall>k<length new. new ! k = fst (w ((fst st)\<lparr>results := results (fst st) @ take k new\<rparr>) (i + k)))"
proof (induction w bound i st rule: attempts.induct)
  case (1 w bound i st)
  show ?case
  proof (cases "i < bound")
    case False
    then show ?thesis by (simp add: attempts.simps)
  next
    case True
    define r where "r = attempt w i st"
    have res: "results (fst (snd r)) = results (fst st) @ [fst r]"
      by (simp add: r_def attempt_results attempt_fst)
    have fr: "fst r = fst (w (fst st) i)" by (simp add: r_def attempt_fst)
    show ?thesis
    proof (cases "stops (fst r)")
      case True
      with \<open>i < bound\<close> have "attempts w bound i st = snd r"
        by (simp add: attempts.simps [of w bound i st] r_def stops_def Let_def)
      then have "results (fst (attempts w bound i st)) = results (fst st) @ [fst r]"
        by (simp add: res)
      then show ?thesis by (auto simp: fr)
    next
      case False
      with \<open>i < bound\<close> have eq: "attempts w bound i st = attempts w bound (i + 1) (snd r)"
        by (simp add: attempts.simps [of w bound i st] r_def stops_def Let_def)
      have IH: "\<forall>new. results (fst (attempts w bound (i + 1) (snd r))) = results (fst (snd r)) @ new \<longrightarrow>
         (\<forall>k<length new. new ! k = fst (w ((fst (snd r))\<lparr>results := results (fst (snd r)) @ take k new\<rparr>) (i + 1 + k)))"
        using "1.IH" [of r] False \<open>i < bound\<close> by (auto simp: r_def stops_def)
      have upd: "fst (snd r) = (fst st)\<lparr>results := results (fst st) @ [fst r]\<rparr>"
        by (simp add: r_def attempt_snd attempt_fst)
      show ?thesis
      proof (intro allI impI)
        fix new k
        assume a: "results (fst (attempts w bound i st)) = results (fst st) @ new" and k: "k < length new"
        obtain new' where r': "results (fst (attempts w bound (i + 1) (snd r))) = results (fst (snd r)) @ new'"
          using attempts_results [of w bound "i + 1" "snd r"] by (elim exE conjE) (rule that)
        have new': "new = fst r # new'"
          using a eq res r' by simp
        show "new ! k = fst (w ((fst st)\<lparr>results := results (fst st) @ take k new\<rparr>) (i + k))"
        proof (cases k)
          case 0
          then show ?thesis by (simp add: new' fr)
        next
          case (Suc j)
          with k new' have "j < length new'" by simp
          with IH r' have "new' ! j = fst (w ((fst (snd r))\<lparr>results := results (fst (snd r)) @ take j new'\<rparr>) (i + 1 + j))"
            by blast
          then show ?thesis by (simp add: Suc new' upd)
        qed
      qed
    qed
  qed
qed

text \<open>
  C4 (as the code has it). For a selected test the task appends one result per attempt
  and nothing else: the \<open>k\<close>-th new result is the reply of the \<open>k\<close>-th call of the worker,
  made on the test as the earlier attempts left it. There is at least one attempt and at
  most \<open>max(0, retries) + 1\<close>; no attempt before the last has status \<^verbatim>\<open>expected\<close> or
  \<^verbatim>\<open>skipped\<close>, and the last one has such a status or is attempt number
  \<open>max(0, retries) + 1\<close>.
\<close>

theorem retry_cap:
  assumes "testId t \<in> filteredTestIds"
  shows "\<exists>new. results (fst (test_task filteredTestIds retries w t)) = results t @ new
     \<and> 1 \<le> length new \<and> length new \<le> nat (max 0 retries) + 1
     \<and> (\<forall>k<length new. new ! k = fst (w (t\<lparr>results := results t @ take k new\<rparr>) k))
     \<and> (\<forall>r\<in>set (butlast new). \<not> stops r)
     \<and> (stops (last new) \<or> length new = nat (max 0 retries) + 1)"
proof -
  let ?b = "max_attempts retries"
  have b: "?b = nat (max 0 retries) + 1" by (simp add: max_attempts_def nat_add_distrib)
  have tt: "test_task filteredTestIds retries w t = attempts w ?b 0 (t, [])"
    using assms by (simp add: test_task_def)
  from attempts_results [of w ?b 0 "(t, [])"]
  obtain new where all: "results (fst (attempts w ?b 0 (t, []))) = results (fst (t, [] :: event list)) @ new
     \<and> length new \<le> ?b - 0
     \<and> (0 < ?b \<longrightarrow> new \<noteq> [])
     \<and> (\<forall>r\<in>set (butlast new). \<not> stops r)
     \<and> (new \<noteq> [] \<longrightarrow> stops (last new) \<or> length new = ?b - 0)" ..
  then have new: "results (fst (attempts w ?b 0 (t, []))) = results (fst (t, [] :: event list)) @ new"
     "length new \<le> ?b - 0" "0 < ?b \<longrightarrow> new \<noteq> []" "\<forall>r\<in>set (butlast new). \<not> stops r"
     "new \<noteq> [] \<longrightarrow> stops (last new) \<or> length new = ?b - 0"
    by blast+
  have ne: "new \<noteq> []" using new(3) b by simp
  have rep: "\<forall>k<length new. new ! k = fst (w (t\<lparr>results := results t @ take k new\<rparr>) k)"
    using attempts_replies [of w ?b 0 "(t, [])"] new(1) by simp
  show ?thesis
  proof (intro exI [of _ new] conjI)
    show "results (fst (test_task filteredTestIds retries w t)) = results t @ new"
      using new(1) tt by simp
    show "1 \<le> length new" using ne by (cases new) auto
    show "length new \<le> nat (max 0 retries) + 1" using new(2) b by simp
    show "\<forall>k<length new. new ! k = fst (w (t\<lparr>results := results t @ take k new\<rparr>) k)"
      by (rule rep)
    show "\<forall>r\<in>set (butlast new). \<not> stops r" by (rule new(4))
    show "stops (last new) \<or> length new = nat (max 0 retries) + 1"
      using new(5) ne b by simp
  qed
qed

theorem retry_cap_witness:
  "testId example_test \<in> {testId example_test}
   \<and> map status (results (fst (test_task {testId example_test} 2 always_unexpected example_test)))
       = [Unexpected, Unexpected, Unexpected]
   \<and> map status (results (fst (test_task {testId example_test} 2 pass_on_second example_test)))
       = [Unexpected, Expected]"
  using retry_cap [of example_test "{testId example_test}" 2 always_unexpected]
  by (simp add: test_task_def max_attempts_def attempts.simps attempt_def Let_def
      always_unexpected_def pass_on_second_def example_test_def new_TestCase_def)

text \<open>
  C4 as stated fails for a negative \<^verbatim>\<open>retries\<close>: with \<open>retries = -1\<close> and a worker that
  never passes, one attempt is made, not \<open>retries + 1 = 0\<close>.
\<close>

theorem retry_cap_negative_counterexample:
  "map status (results (fst (test_task {testId example_test} (- 1) always_unexpected example_test)))
     = [Unexpected]
   \<and> int (length (results (fst (test_task {testId example_test} (- 1) always_unexpected example_test))))
     \<noteq> (- 1) + 1"
  by (simp add: test_task_def max_attempts_def attempts.simps attempt_def Let_def
      always_unexpected_def example_test_def new_TestCase_def)

section \<open>The \<^verbatim>\<open>only\<close> step and the dispatch\<close>







section \<open>Skipped tests\<close>




section \<open>Timeout of a worker call\<close>

lemma fold_on_payload_pending:
  assumes "\<forall>p\<in>set ps. \<not> truthy_string (errorMessage p)"
  shows "fst (fold on_payload ps (None, s)) = None"
  using assms
proof (induction ps arbitrary: s)
  case Nil
  show ?case by simp
next
  case (Cons p ps)
  then have "\<not> truthy_string (errorMessage p)" by simp
  then have "\<exists>s'. on_payload p (None, s) = (None, s')"
    by (simp add: on_payload_def)
  then obtain s' where "on_payload p (None, s) = (None, s')" ..
  with Cons show ?case by simp
qed

lemma sublist_timeout_message:
  "sublist (string_of_nat (nat ms) @ '' ms'') (timeout_message ms)"
proof -
  have "timeout_message ms =
      ''Error: worker was terminated as the timeout ('' @ (string_of_nat (nat ms) @ '' ms'') @ '') as exceeded''"
    by (simp add: timeout_message_def)
  then show ?thesis by (simp only: sublist_appendI)
qed

lemma worker_outcome_timeout:
  assumes pos: "0 < ms"
    and quiet: "\<forall>(tp, p)\<in>set (payloads e). int tp < ms \<longrightarrow> \<not> truthy_string (errorMessage p)"
    and late: "case settles e of None \<Rightarrow> True | Some (ts, s) \<Rightarrow> ms \<le> int ts"
  shows "worker_outcome ms e = Some TimedOut"
proof -
  let ?ps = "filter (\<lambda>(tp, p). int tp < ms) (payloads e)"
  have pt: "Promise_timeout ms e = \<lparr>payloads = ?ps, settles = Some (nat ms, Rejected TimeoutError)\<rparr>"
    using late by (simp add: Promise_timeout_def)
  have "\<not> list_ex (\<lambda>(tp, payload). truthy_string (errorMessage payload)) ?ps"
    using quiet by (auto simp add: list_ex_iff)
  then show ?thesis
    using pos by (simp add: worker_outcome_def pt Let_def)
qed

text \<open>
  C8. With a positive timeout, if the worker sends no error message before the deadline
  and the call of the pool has not settled by then, the promise of \<^verbatim>\<open>runTestWorker\<close> is
  resolved, not rejected, with a failure (\<^verbatim>\<open>passed: false\<close>) whose error text contains the
  timeout followed by \<^verbatim>\<open>ms\<close>; the result recorded for the attempt, by the table of the
  specification, has status \<^verbatim>\<open>unexpected\<close> under any annotation and carries that text.
\<close>

theorem worker_timeout:
  assumes pos: "0 < ms"
    and quiet: "\<forall>(tp, p)\<in>set (payloads (pool (testId t) (getMockSuite t) importPath)).
                 int tp < ms \<longrightarrow> \<not> truthy_string (errorMessage p)"
    and late: "case settles (pool (testId t) (getMockSuite t) importPath) of
                 None \<Rightarrow> True | Some (ts, s) \<Rightarrow> ms \<le> int ts"
  shows "(\<exists>d. runTestWorker t importPath ms pool now =
            Some (Fulfilled \<lparr>resultError = Some (timeout_message ms), passed = False, resultDuration = d\<rparr>)
          \<and> recorded_result annots t importPath ms pool now =
            Some \<lparr>status = Unexpected, error = Some (timeout_message ms), duration = d, snapshots = []\<rparr>)
     \<and> sublist (string_of_nat (nat ms) @ '' ms'') (timeout_message ms)"
proof -
  let ?e = "pool (testId t) (getMockSuite t) importPath"
  let ?ps = "filter (\<lambda>(tp, p). int tp < ms) (payloads ?e)"
  have pt: "Promise_timeout ms ?e = \<lparr>payloads = ?ps, settles = Some (nat ms, Rejected TimeoutError)\<rparr>"
    using late by (simp add: Promise_timeout_def)
  have "\<forall>p\<in>set (map snd ?ps). \<not> truthy_string (errorMessage p)"
    using quiet by auto
  then have pend: "fst (fold on_payload (map snd ?ps) (None, now)) = None"
    by (rule fold_on_payload_pending)
  obtain s' where st: "fold on_payload (map snd ?ps) (None, now) = (None, s')"
    using pend by (cases "fold on_payload (map snd ?ps) (None, now)") simp
  have run: "runTestWorker t importPath ms pool now =
      Some (Fulfilled \<lparr>resultError = Some (timeout_message ms), passed = False,
                       resultDuration = now + int (nat ms) - s'\<rparr>)"
    using pos by (simp add: runTestWorker_def pt st on_rejection_def resolve_with_def Let_def)
  have kind: "worker_outcome ms ?e = Some TimedOut"
    using pos quiet late by (rule worker_outcome_timeout)
  have "recorded_result annots t importPath ms pool now =
      Some \<lparr>status = Unexpected, error = Some (timeout_message ms),
             duration = now + int (nat ms) - s', snapshots = []\<rparr>"
    by (simp add: recorded_result_def run kind recorded_status_def)
  with run show ?thesis using sublist_timeout_message by blast
qed

theorem worker_timeout_witness:
  "(0::int) < 500
   \<and> runTestWorker example_test ''file:///repo/.tact/cache/a.js'' 500 hanging_pool 990
       = Some (Fulfilled \<lparr>resultError = Some ''Error: worker was terminated as the timeout (500 ms) as exceeded'',
                         passed = False, resultDuration = 490\<rparr>)
   \<and> recorded_result [''fail''] example_test ''file:///repo/.tact/cache/a.js'' 500 hanging_pool 990
       = Some \<lparr>status = Unexpected,
               error = Some ''Error: worker was terminated as the timeout (500 ms) as exceeded'',
               duration = 490, snapshots = []\<rparr>
   \<and> sublist ''500 ms'' (timeout_message 500)"
  using worker_timeout [of 500 hanging_pool example_test "''file:///repo/.tact/cache/a.js''" 990 "[''fail'']"]
  by (simp add: recorded_result_def worker_outcome_def recorded_status_def
      runTestWorker_def hanging_pool_def Promise_timeout_def on_payload_def
      truthy_string_def truthy_number_def on_rejection_def resolve_with_def Let_def
      timeout_message_def string_of_nat.simps digits_def)

section \<open>The polling matcher\<close>

lemma poll_from_found:
  assumes "0 < delay"
    and "fst (sample_from callback delay now st k) \<noteq> isNot"
    and "now + k * delay \<le> deadline"
    and "\<forall>j<k. fst (sample_from callback delay now st j) = isNot"
  shows "poll_from callback delay deadline isNot now st
           = (\<not> isNot, now + k * delay, snd (sample_from callback delay now st k))"
  using assms
proof (induction k arbitrary: now st)
  case 0
  then show ?case
    by (auto simp add: poll_from.simps [of callback delay deadline isNot now st] Let_def)
next
  case (Suc k)
  from Suc.prems(4) have first: "fst (callback now st) = isNot"
    using sample_from.simps(1) [of callback delay now st] by (metis zero_less_Suc)
  have go: "\<not> (delay = 0 \<or> deadline < now + delay)"
  proof -
    have "now + delay \<le> now + Suc k * delay" by simp
    with Suc.prems(1,3) show ?thesis by simp
  qed
  have later: "\<forall>j<k. fst (sample_from callback delay (now + delay) (snd (callback now st)) j) = isNot"
  proof (intro allI impI)
    fix j assume "j < k"
    then have "fst (sample_from callback delay now st (Suc j)) = isNot"
      using Suc.prems(4) by (metis Suc_mono)
    then show "fst (sample_from callback delay (now + delay) (snd (callback now st)) j) = isNot"
      by simp
  qed
  have "poll_from callback delay deadline isNot (now + delay) (snd (callback now st))
      = (\<not> isNot, now + delay + k * delay,
         snd (sample_from callback delay (now + delay) (snd (callback now st)) k))"
    using Suc.IH [of "now + delay" "snd (callback now st)"] Suc.prems(1,2,3) later
    by (simp add: add.assoc)
  with first go show ?case
    by (simp add: poll_from.simps [of callback delay deadline isNot now st] Let_def add.assoc)
qed

lemma poll_from_resolved:
  assumes "now \<le> deadline"
    and "fst (poll_from callback delay deadline isNot now st) \<noteq> isNot"
  shows "\<exists>k. now + k * delay \<le> deadline \<and> fst (sample_from callback delay now st k) \<noteq> isNot"
  using assms
proof (induction callback delay deadline isNot now st rule: poll_from.induct)
  case (1 callback delay deadline isNot now st)
  show ?case
  proof (cases "fst (callback now st) \<noteq> isNot")
    case True
    with "1.prems"(1)
    have "now + 0 * delay \<le> deadline \<and> fst (sample_from callback delay now st 0) \<noteq> isNot"
      by simp
    then show ?thesis by blast
  next
    case False
    show ?thesis
    proof (cases "delay = 0 \<or> deadline < now + delay")
      case True
      with False "1.prems"(2) show ?thesis
        by (simp add: poll_from.simps [of callback delay deadline isNot now st] Let_def)
    next
      case stay: False
      with False "1.prems"(2)
      have "fst (poll_from callback delay deadline isNot (now + delay) (snd (callback now st))) \<noteq> isNot"
        by (simp add: poll_from.simps [of callback delay deadline isNot now st] Let_def)
      moreover have "now + delay \<le> deadline" using stay by simp
      ultimately obtain k where "now + delay + k * delay \<le> deadline"
        "fst (sample_from callback delay (now + delay) (snd (callback now st)) k) \<noteq> isNot"
        using "1.IH" [OF refl] False stay by auto
      then have "now + Suc k * delay \<le> deadline \<and> fst (sample_from callback delay now st (Suc k)) \<noteq> isNot"
        by (simp add: add.assoc)
      then show ?thesis by blast
    qed
  qed
qed

lemma poll_from_value:
  "fst (poll_from callback delay deadline isNot now st) \<noteq> isNot
     \<longleftrightarrow> fst (poll_from callback delay deadline isNot now st) = (\<not> isNot)"
  by auto

lemma poll_resolved_iff:
  assumes "0 < delay"
  shows "(fst (poll callback delay deadline isNot st) \<noteq> isNot)
     = (\<exists>k. k * delay \<le> deadline \<and> fst (sample_from callback delay 0 st k) \<noteq> isNot)"
proof
  assume "fst (poll callback delay deadline isNot st) \<noteq> isNot"
  then have "fst (poll_from callback delay deadline isNot 0 st) \<noteq> isNot"
    by (simp add: poll_def Let_def)
  then have "\<exists>k. 0 + k * delay \<le> deadline \<and> fst (sample_from callback delay 0 st k) \<noteq> isNot"
    by (intro poll_from_resolved) simp_all
  then show "\<exists>k. k * delay \<le> deadline \<and> fst (sample_from callback delay 0 st k) \<noteq> isNot"
    by simp
next
  let ?P = "\<lambda>k. k * delay \<le> deadline \<and> fst (sample_from callback delay 0 st k) \<noteq> isNot"
  assume "\<exists>k. ?P k"
  then obtain k where k: "?P k" ..
  define m where "m = (LEAST k. ?P k)"
  have hm: "?P m" unfolding m_def using k by (rule LeastI)
  have least: "\<forall>j<m. \<not> ?P j"
    unfolding m_def using not_less_Least by blast
  have "\<forall>j<m. fst (sample_from callback delay 0 st j) = isNot"
  proof (intro allI impI)
    fix j assume "j < m"
    then have "\<not> ?P j" using least by blast
    moreover have "j * delay \<le> deadline"
    proof -
      have "j * delay \<le> m * delay" using \<open>j < m\<close> by (intro mult_le_mono1) simp
      moreover have "m * delay \<le> deadline" using hm by simp
      ultimately show ?thesis by (rule le_trans)
    qed
    ultimately show "fst (sample_from callback delay 0 st j) = isNot" by simp
  qed
  with hm assms have "poll_from callback delay deadline isNot 0 st
      = (\<not> isNot, 0 + m * delay, snd (sample_from callback delay 0 st m))"
    by (intro poll_from_found) simp_all
  then show "fst (poll callback delay deadline isNot st) \<noteq> isNot"
    by (simp add: poll_def Let_def)
qed

lemma poll_from_stateless:
  assumes "\<forall>now. callback now st = (b, st)"
  shows "poll_from callback delay deadline isNot now st = (b, snd (poll_from callback delay deadline isNot now st))
       \<and> snd (snd (poll_from callback delay deadline isNot now st)) = st"
  using assms
proof (induction callback delay deadline isNot now st rule: poll_from.induct)
  case (1 callback delay deadline isNot now st)
  have cb: "callback now st = (b, st)" using "1.prems" by simp
  show ?case
  proof (cases "b \<noteq> isNot")
    case True
    then show ?thesis
      by (simp add: poll_from.simps [of callback delay deadline isNot now st] cb)
  next
    case False
    show ?thesis
    proof (cases "delay = 0 \<or> deadline < now + delay")
      case True
      with False show ?thesis
        by (auto simp add: poll_from.simps [of callback delay deadline isNot now st] cb)
    next
      case stay: False
      have "poll_from callback delay deadline isNot (now + delay) st
            = (b, snd (poll_from callback delay deadline isNot (now + delay) st))
          \<and> snd (snd (poll_from callback delay deadline isNot (now + delay) st)) = st"
        using "1.IH" [OF refl] False stay cb "1.prems" by simp
      moreover have "poll_from callback delay deadline isNot now st
          = poll_from callback delay deadline isNot (now + delay) st"
        using False stay by (simp add: poll_from.simps [of callback delay deadline isNot now st] cb)
      ultimately show ?thesis by simp
    qed
  qed
qed


lemma toHaveValue_pass:
  "pass (fst (toHaveValue isNot terminal expected options getExpectTimeout))
     = fst (poll (\<lambda>now e. toHaveValue_callback (terminal now) e options) 50
              (timeout_or_default options getExpectTimeout) isNot expected)"
  by (simp add: toHaveValue_def Let_def)

lemma toHaveValue_succeeds_iff:
  "matcher_succeeds isNot (fst (toHaveValue isNot terminal expected options getExpectTimeout))
     = (\<exists>k. k * 50 \<le> timeout_or_default options getExpectTimeout
            \<and> fst (toHaveValue_sample terminal expected options k) = (\<not> isNot))"
proof -
  have "matcher_succeeds isNot (fst (toHaveValue isNot terminal expected options getExpectTimeout))
      = (fst (poll (\<lambda>now e. toHaveValue_callback (terminal now) e options) 50
              (timeout_or_default options getExpectTimeout) isNot expected) \<noteq> isNot)"
    by (simp add: matcher_succeeds_def toHaveValue_pass)
  also have "\<dots> = (\<exists>k. k * 50 \<le> timeout_or_default options getExpectTimeout
            \<and> fst (toHaveValue_sample terminal expected options k) \<noteq> isNot)"
    unfolding toHaveValue_sample_def by (rule poll_resolved_iff) simp
  also have "\<dots> = (\<exists>k. k * 50 \<le> timeout_or_default options getExpectTimeout
            \<and> fst (toHaveValue_sample terminal expected options k) = (\<not> isNot))"
    by auto
  finally show ?thesis .
qed

lemma toHaveValue_callback_render:
  "toHaveValue_callback screen (ExpectedString s) options
       = (sublist s (concat (map concat (selected_buffer screen options))), ExpectedString s)"
  "toHaveValue_callback screen (ExpectedRegExp r) options
       = (fst (RegExp_test r (concat (map concat (selected_buffer screen options)))),
          ExpectedRegExp (snd (RegExp_test r (concat (map concat (selected_buffer screen options))))))"
proof -
  have j: "\<And>xs. join [] xs = concat xs" by (rule join_empty_sep)
  have jj: "\<And>xss. map (\<lambda>bufferLine. join [] bufferLine) xss = map concat xss"
    by (simp add: j)
  show "toHaveValue_callback screen (ExpectedString s) options
       = (sublist s (concat (map concat (selected_buffer screen options))), ExpectedString s)"
    by (simp add: toHaveValue_callback_def Let_def string_includes_def j jj)
  show "toHaveValue_callback screen (ExpectedRegExp r) options
       = (fst (RegExp_test r (concat (map concat (selected_buffer screen options)))),
          ExpectedRegExp (snd (RegExp_test r (concat (map concat (selected_buffer screen options))))))"
    by (simp add: toHaveValue_callback_def Let_def j jj)
qed

text \<open>
  C3 (as the code has it). \<^verbatim>\<open>toHaveValue\<close> samples at 0, 50, 100, ... ms up to the
  deadline, which is \<^verbatim>\<open>options.timeout\<close> or else the configured expect timeout; each sample
  runs on the object \<^verbatim>\<open>expected\<close> as the sample before left it. A sample renders the full
  buffer when \<^verbatim>\<open>options.full\<close> is \<^verbatim>\<open>true\<close> and the viewable buffer otherwise, as the
  plain concatenation of all cells of all rows, and tests it by containment for a string
  and by \<^verbatim>\<open>test\<close> for a regular expression. The matcher succeeds exactly when some sample
  up to the deadline differs from \<^verbatim>\<open>isNot\<close>: the positive matcher as soon as a sample
  holds the predicate, the negated matcher as soon as a sample does not hold it. The poll
  is resolved at the first such sample, and \<^verbatim>\<open>pass\<close> and the message follow from it.
\<close>

theorem toHaveValue_polls:
  "matcher_succeeds isNot (fst (toHaveValue isNot terminal expected options getExpectTimeout))
     = (\<exists>k. k * 50 \<le> timeout_or_default options getExpectTimeout
            \<and> fst (toHaveValue_sample terminal expected options k) = (\<not> isNot))
   \<and> pass (fst (toHaveValue isNot terminal expected options getExpectTimeout))
     = (matcher_succeeds isNot (fst (toHaveValue isNot terminal expected options getExpectTimeout)) \<noteq> isNot)
   \<and> message (fst (toHaveValue isNot terminal expected options getExpectTimeout))
     = (if matcher_succeeds isNot (fst (toHaveValue isNot terminal expected options getExpectTimeout))
        then PassedMessage
        else if isNot then MatchFound (comparisonMethod expected)
        else NoMatchFound (comparisonMethod expected))
   \<and> (k * 50 \<le> timeout_or_default options getExpectTimeout
        \<and> fst (toHaveValue_sample terminal expected options k) = (\<not> isNot)
        \<and> (\<forall>j<k. fst (toHaveValue_sample terminal expected options j) = isNot)
       \<longrightarrow> poll_from (\<lambda>now e. toHaveValue_callback (terminal now) e options) 50
              (timeout_or_default options getExpectTimeout) isNot 0 expected
            = (\<not> isNot, k * 50, snd (toHaveValue_sample terminal expected options k))
         \<and> snd (toHaveValue isNot terminal expected options getExpectTimeout)
            = snd (toHaveValue_sample terminal expected options k))
   \<and> toHaveValue_callback screen (ExpectedString s) options
       = (sublist s (concat (map concat (selected_buffer screen options))), ExpectedString s)
   \<and> toHaveValue_callback screen (ExpectedRegExp r) options
       = (fst (RegExp_test r (concat (map concat (selected_buffer screen options)))),
          ExpectedRegExp (snd (RegExp_test r (concat (map concat (selected_buffer screen options))))))
   \<and> selected_buffer screen (Some \<lparr>timeout = ms, full = Some True\<rparr>) = getBuffer screen
   \<and> selected_buffer screen (Some \<lparr>timeout = ms, full = Some False\<rparr>) = getViewableBuffer screen
   \<and> selected_buffer screen (Some \<lparr>timeout = ms, full = None\<rparr>) = getViewableBuffer screen
   \<and> selected_buffer screen None = getViewableBuffer screen
   \<and> timeout_or_default (Some \<lparr>timeout = Some n, full = fl\<rparr>) getExpectTimeout = n
   \<and> timeout_or_default (Some \<lparr>timeout = None, full = fl\<rparr>) getExpectTimeout = getExpectTimeout
   \<and> timeout_or_default None getExpectTimeout = getExpectTimeout"
proof -
  let ?cb = "\<lambda>now e. toHaveValue_callback (terminal now) e options"
  let ?T = "timeout_or_default options getExpectTimeout"
  let ?r = "fst (toHaveValue isNot terminal expected options getExpectTimeout)"
  note a = toHaveValue_succeeds_iff [of isNot terminal expected options getExpectTimeout]
  have b: "pass ?r = (matcher_succeeds isNot ?r \<noteq> isNot)"
    by (auto simp add: matcher_succeeds_def)
  have c: "message ?r = (if matcher_succeeds isNot ?r then PassedMessage
        else if isNot then MatchFound (comparisonMethod expected)
        else NoMatchFound (comparisonMethod expected))"
    by (auto simp add: matcher_succeeds_def toHaveValue_def Let_def)
  have d: "k * 50 \<le> ?T \<and> fst (toHaveValue_sample terminal expected options k) = (\<not> isNot)
        \<and> (\<forall>j<k. fst (toHaveValue_sample terminal expected options j) = isNot)
       \<longrightarrow> poll_from ?cb 50 ?T isNot 0 expected
            = (\<not> isNot, k * 50, snd (toHaveValue_sample terminal expected options k))
         \<and> snd (toHaveValue isNot terminal expected options getExpectTimeout)
            = snd (toHaveValue_sample terminal expected options k)"
  proof (intro impI, elim conjE)
    assume le: "k * 50 \<le> ?T"
      and h: "fst (toHaveValue_sample terminal expected options k) = (\<not> isNot)"
      and n: "\<forall>j<k. fst (toHaveValue_sample terminal expected options j) = isNot"
    have "poll_from ?cb 50 ?T isNot 0 expected
        = (\<not> isNot, 0 + k * 50, snd (sample_from ?cb 50 0 expected k))"
      using le h n by (intro poll_from_found) (auto simp add: toHaveValue_sample_def)
    then have p: "poll_from ?cb 50 ?T isNot 0 expected
        = (\<not> isNot, k * 50, snd (toHaveValue_sample terminal expected options k))"
      by (simp add: toHaveValue_sample_def)
    then have "snd (toHaveValue isNot terminal expected options getExpectTimeout)
            = snd (toHaveValue_sample terminal expected options k)"
      by (simp add: toHaveValue_def poll_def Let_def)
    with p show "poll_from ?cb 50 ?T isNot 0 expected
            = (\<not> isNot, k * 50, snd (toHaveValue_sample terminal expected options k))
         \<and> snd (toHaveValue isNot terminal expected options getExpectTimeout)
            = snd (toHaveValue_sample terminal expected options k)"
      by simp
  qed
  show ?thesis
    using a b c d toHaveValue_callback_render(1) [of screen s options]
      toHaveValue_callback_render(2) [of screen r options]
    by (simp add: selected_buffer_def timeout_or_default_def)
qed

lemma RegExp_test_stateless:
  "\<not> global r \<Longrightarrow> \<not> sticky r \<Longrightarrow> snd (RegExp_test r s) = r"
  by (simp add: RegExp_test_def split: option.split)

lemma toHaveValue_callback_stateless:
  "stateless expected \<Longrightarrow> snd (toHaveValue_callback screen expected options) = expected"
  by (cases expected)
     (simp_all add: stateless_def toHaveValue_callback_def Let_def RegExp_test_stateless)

lemma toHaveValue_stable_pass:
  assumes "stateless expected"
  shows "pass (fst (toHaveValue isNot (\<lambda>now. screen) expected options getExpectTimeout))
     = fst (toHaveValue_callback screen expected options)"
proof -
  let ?cb = "\<lambda>(now::nat) e. toHaveValue_callback screen e options"
  have "\<forall>now. ?cb now expected = (fst (toHaveValue_callback screen expected options), expected)"
    using toHaveValue_callback_stateless [OF assms, of screen options]
    by (simp add: prod_eq_iff)
  then have "fst (poll_from ?cb 50 (timeout_or_default options getExpectTimeout) isNot 0 expected)
      = fst (toHaveValue_callback screen expected options)"
    using poll_from_stateless [of ?cb expected "fst (toHaveValue_callback screen expected options)"
        50 "timeout_or_default options getExpectTimeout" isNot 0]
    by (metis fst_conv)
  then show ?thesis by (simp add: toHaveValue_pass poll_def Let_def)
qed





lemma sample_from_stateless:
  assumes "\<forall>now. snd (callback now st) = st"
  shows "sample_from callback delay now st k = callback (now + k * delay) st"
  using assms by (induction k arbitrary: now) (simp_all add: add.assoc)

lemma toHaveValue_sample_string:
  "toHaveValue_sample terminal (ExpectedString s) options k
     = toHaveValue_callback (terminal (k * 50)) (ExpectedString s) options"
  unfolding toHaveValue_sample_def
  using sample_from_stateless
    [of "\<lambda>now e. toHaveValue_callback (terminal now) e options" "ExpectedString s" 50 0 k]
  by (simp add: toHaveValue_callback_render)

lemma prompt_views:
  "concat (map concat (selected_buffer prompt_screen None)) = ''>   ''"
  "concat (map concat (selected_buffer blank_screen None)) = ''    ''"
  by (simp_all add: selected_buffer_def prompt_screen_def blank_screen_def)

theorem toHaveValue_polls_witness:
  "3 * 50 \<le> timeout_or_default None 2000
   \<and> fst (toHaveValue_sample prompt_after_120 (ExpectedString ''> '') None 0) = False
   \<and> fst (toHaveValue_sample prompt_after_120 (ExpectedString ''> '') None 1) = False
   \<and> fst (toHaveValue_sample prompt_after_120 (ExpectedString ''> '') None 2) = False
   \<and> fst (toHaveValue_sample prompt_after_120 (ExpectedString ''> '') None 3) = True
   \<and> poll_from (\<lambda>now e. toHaveValue_callback (prompt_after_120 now) e None) 50
        (timeout_or_default None 2000) False 0 (ExpectedString ''> '')
       = (True, 150, ExpectedString ''> '')
   \<and> matcher_succeeds False (fst (toHaveValue False prompt_after_120 (ExpectedString ''> '') None 2000))
   \<and> fst (toHaveValue_sample prompt_until_120 (ExpectedString ''> '') None 0) = True
   \<and> fst (toHaveValue_sample prompt_until_120 (ExpectedString ''> '') None 1) = True
   \<and> fst (toHaveValue_sample prompt_until_120 (ExpectedString ''> '') None 2) = True
   \<and> fst (toHaveValue_sample prompt_until_120 (ExpectedString ''> '') None 3) = False
   \<and> poll_from (\<lambda>now e. toHaveValue_callback (prompt_until_120 now) e None) 50
        (timeout_or_default None 2000) True 0 (ExpectedString ''> '')
       = (False, 150, ExpectedString ''> '')
   \<and> matcher_succeeds True (fst (toHaveValue True prompt_until_120 (ExpectedString ''> '') None 2000))"
proof -
  have s1: "\<And>k. toHaveValue_sample prompt_after_120 (ExpectedString ''> '') None k
      = (120 \<le> k * 50, ExpectedString ''> '')"
    by (simp add: toHaveValue_sample_string toHaveValue_callback_render prompt_after_120_def
        prompt_views sublist_Cons_right)
  have s2: "\<And>k. toHaveValue_sample prompt_until_120 (ExpectedString ''> '') None k
      = (k * 50 < 120, ExpectedString ''> '')"
    by (simp add: toHaveValue_sample_string toHaveValue_callback_render prompt_until_120_def
        prompt_views sublist_Cons_right)
  have t: "3 * 50 \<le> timeout_or_default None 2000" by (simp add: timeout_or_default_def)
  have n1: "\<forall>j<3. fst (toHaveValue_sample prompt_after_120 (ExpectedString ''> '') None j) = False"
    by (auto simp add: s1)
  have n2: "\<forall>j<3. fst (toHaveValue_sample prompt_until_120 (ExpectedString ''> '') None j) = True"
    by (auto simp add: s2)
  note pos = toHaveValue_polls [of False prompt_after_120 "ExpectedString ''> ''" None 2000 3]
  note neg = toHaveValue_polls [of True prompt_until_120 "ExpectedString ''> ''" None 2000 3]
  have p1: "poll_from (\<lambda>now e. toHaveValue_callback (prompt_after_120 now) e None) 50
        (timeout_or_default None 2000) False 0 (ExpectedString ''> '')
       = (\<not> False, 3 * 50, snd (toHaveValue_sample prompt_after_120 (ExpectedString ''> '') None 3))"
    using pos [THEN conjunct2, THEN conjunct2, THEN conjunct2, THEN conjunct1] t n1
    by (simp add: s1)
  have "\<exists>k. k * 50 \<le> timeout_or_default None 2000
      \<and> fst (toHaveValue_sample prompt_after_120 (ExpectedString ''> '') None k) = (\<not> False)"
    using t by (intro exI [of _ 3]) (simp add: s1)
  then have m1: "matcher_succeeds False (fst (toHaveValue False prompt_after_120 (ExpectedString ''> '') None 2000))"
    using pos [THEN conjunct1] by blast
  have p2: "poll_from (\<lambda>now e. toHaveValue_callback (prompt_until_120 now) e None) 50
        (timeout_or_default None 2000) True 0 (ExpectedString ''> '')
       = (\<not> True, 3 * 50, snd (toHaveValue_sample prompt_until_120 (ExpectedString ''> '') None 3))"
    using neg [THEN conjunct2, THEN conjunct2, THEN conjunct2, THEN conjunct1] t n2
    by (simp add: s2)
  have "\<exists>k. k * 50 \<le> timeout_or_default None 2000
      \<and> fst (toHaveValue_sample prompt_until_120 (ExpectedString ''> '') None k) = (\<not> True)"
    using t by (intro exI [of _ 3]) (simp add: s2)
  then have m2: "matcher_succeeds True (fst (toHaveValue True prompt_until_120 (ExpectedString ''> '') None 2000))"
    using neg [THEN conjunct1] by blast
  show ?thesis
    using t p1 m1 p2 m2 by (simp add: s1 s2)
qed

text \<open>
  C3 as stated fails for the negated matcher: on the stable prompt screen the predicate
  holds at the first sample, and at every other, and the negated matcher does not
  succeed.
\<close>

theorem toHaveValue_negated_counterexample:
  "0 * 50 \<le> timeout_or_default None 100
   \<and> fst (toHaveValue_sample stable_terminal (ExpectedString ''> '') None 0)
   \<and> \<not> matcher_succeeds True (fst (toHaveValue True stable_terminal (ExpectedString ''> '') None 100))"
proof -
  have st: "stable_terminal = (\<lambda>now. prompt_screen)"
    by (simp add: stable_terminal_def fun_eq_iff)
  have cb: "toHaveValue_callback prompt_screen (ExpectedString ''> '') None = (True, ExpectedString ''> '')"
    by (simp add: toHaveValue_callback_render prompt_views sublist_Cons_right)
  have "stateless (ExpectedString ''> '')" by (simp add: stateless_def)
  then have "pass (fst (toHaveValue True (\<lambda>now. prompt_screen) (ExpectedString ''> '') None 100)) = True"
    by (simp add: toHaveValue_stable_pass cb)
  then show ?thesis
    by (simp add: st matcher_succeeds_def toHaveValue_sample_string cb)
qed



section \<open>Registry of the declared tests\<close>

lemma store_all_simps:
  "store_all [] m = m" "store_all (t # ts) m = store_all ts (m(testId t \<mapsto> t))"
  by (simp_all add: store_all_def)

lemma store_all_lookup:
  "store_all ts m k = None \<longleftrightarrow> m k = None \<and> k \<notin> testId ` set ts"
  unfolding store_all_def
  by (induction ts arbitrary: m) auto

lemma dom_store_all: "dom (store_all ts m) = dom m \<union> testId ` set ts"
  unfolding store_all_def
  by (induction ts arbitrary: m) auto

lemma store_all_append: "store_all (xs @ ys) m = store_all ys (store_all xs m)"
  by (simp add: store_all_def)

lemma registered_append: "registered (xs @ ys) = registered xs @ registered ys"
  by (simp add: registered_def)

lemma declare_effect:
  "global_suite (declare_one d g) = global_suite g
   \<and> suite_tests (declare_one d g) = suite_tests g @ map snd (constructed_one (global_suite g) d)
   \<and> global_tests (declare_one d g)
       = map_option (store_all (registered (constructed_one (global_suite g) d))) (global_tests g)"
  "global_suite (declare_all ds g) = global_suite g
   \<and> suite_tests (declare_all ds g) = suite_tests g @ map snd (constructed (global_suite g) ds)
   \<and> global_tests (declare_all ds g)
       = map_option (store_all (registered (constructed (global_suite g) ds))) (global_tests g)"
proof (induction d g and ds g rule: declare_one_declare_all.induct)
  case (1 ttl loc fn g)
  show ?case
    by (cases "global_tests g")
       (simp_all add: test_def Let_def register_def registered_def store_all_simps fun_eq_iff)
next
  case (2 ttl loc fn g)
  show ?case
    by (cases "global_tests g")
       (simp_all add: skip_def Let_def register_def registered_def store_all_simps fun_eq_iff)
next
  case (3 ttl loc fn g)
  show ?case
    by (cases "global_tests g")
       (simp_all add: fail_def Let_def registered_def store_all_def)
next
  case (4 ttl callback g)
  show ?case
    using "4.IH" [OF refl refl refl]
    by (simp add: Let_def)
next
  case (5 g)
  show ?case
    by (cases "global_tests g") (simp_all add: registered_def store_all_def)
next
  case (6 d ds g)
  show ?case
    using "6.IH"
    by (cases "global_tests g") (simp_all add: registered_append store_all_append)
qed

text \<open>
  C10 (as the code has it). \<^verbatim>\<open>test.fail\<close> pushes its test case on the tests of the ambient
  suite and leaves the registry as it is. After any sequence of calls, every constructed
  test case has been pushed, in order, and an existing registry holds its old entries
  overwritten with the test cases of \<^verbatim>\<open>test\<close> and \<^verbatim>\<open>test.skip\<close>, each under its id, a later
  one replacing an earlier one with the same id; its keys are the old keys and the ids
  of those test cases. The lookup of the id of a test case of \<^verbatim>\<open>test.fail\<close> finds no entry,
  provided no old entry and no test case of \<^verbatim>\<open>test\<close> or \<^verbatim>\<open>test.skip\<close> has the same id.
\<close>

theorem fail_not_registered:
  "global_tests (fail ttl loc fn g) = global_tests g
   \<and> suite_tests (fail ttl loc fn g) = suite_tests g @ [new_TestCase ttl loc fn (global_suite g)]
   \<and> suite_tests (declare_all ds g) = suite_tests g @ map snd (constructed (global_suite g) ds)
   \<and> (global_tests g = Some m \<longrightarrow>
        global_tests (declare_all ds g)
          = Some (store_all (registered (constructed (global_suite g) ds)) m)
        \<and> dom (store_all (registered (constructed (global_suite g) ds)) m)
          = dom m \<union> testId ` set (registered (constructed (global_suite g) ds))
        \<and> (\<forall>t. (False, t) \<in> set (constructed (global_suite g) ds)
               \<and> testId t \<notin> dom m
               \<and> testId t \<notin> testId ` set (registered (constructed (global_suite g) ds))
             \<longrightarrow> runTest_lookup (declare_all ds g) (testId t) = Inl TypeError))"
proof -
  let ?cs = "constructed (global_suite g) ds"
  have a: "global_tests (fail ttl loc fn g) = global_tests g
     \<and> suite_tests (fail ttl loc fn g) = suite_tests g @ [new_TestCase ttl loc fn (global_suite g)]"
    by (simp add: fail_def Let_def)
  have b: "suite_tests (declare_all ds g) = suite_tests g @ map snd ?cs"
    using declare_effect(2) [of ds g] by simp
  have c: "global_tests g = Some m \<longrightarrow>
        global_tests (declare_all ds g) = Some (store_all (registered ?cs) m)
        \<and> dom (store_all (registered ?cs) m) = dom m \<union> testId ` set (registered ?cs)
        \<and> (\<forall>t. (False, t) \<in> set ?cs \<and> testId t \<notin> dom m \<and> testId t \<notin> testId ` set (registered ?cs)
             \<longrightarrow> runTest_lookup (declare_all ds g) (testId t) = Inl TypeError)"
  proof
    assume m: "global_tests g = Some m"
    have reg: "global_tests (declare_all ds g) = Some (store_all (registered ?cs) m)"
      using declare_effect(2) [of ds g] m by simp
    have look: "\<forall>t. (False, t) \<in> set ?cs \<and> testId t \<notin> dom m \<and> testId t \<notin> testId ` set (registered ?cs)
             \<longrightarrow> runTest_lookup (declare_all ds g) (testId t) = Inl TypeError"
    proof (intro allI impI)
      fix t
      assume h: "(False, t) \<in> set ?cs \<and> testId t \<notin> dom m \<and> testId t \<notin> testId ` set (registered ?cs)"
      then have "store_all (registered ?cs) m (testId t) = None"
        by (simp add: store_all_lookup domIff)
      then show "runTest_lookup (declare_all ds g) (testId t) = Inl TypeError"
        by (simp add: runTest_lookup_def reg)
    qed
    show "global_tests (declare_all ds g) = Some (store_all (registered ?cs) m)
        \<and> dom (store_all (registered ?cs) m) = dom m \<union> testId ` set (registered ?cs)
        \<and> (\<forall>t. (False, t) \<in> set ?cs \<and> testId t \<notin> dom m \<and> testId t \<notin> testId ` set (registered ?cs)
             \<longrightarrow> runTest_lookup (declare_all ds g) (testId t) = Inl TypeError)"
      using reg look dom_store_all by blast
  qed
  show ?thesis using a b c by blast
qed

theorem fail_not_registered_witness:
  "global_tests worker_globals = Some (\<lambda>k. None)
   \<and> (False, new_TestCase ''b'' \<lparr>row = 4, column = 3\<rparr> 2 (Suite ''g'' DescribeT (Some example_file)))
        \<in> set (constructed (global_suite worker_globals)
             [Test ''a'' \<lparr>row = 2, column = 1\<rparr> 1, Describe ''g'' [Fail ''b'' \<lparr>row = 4, column = 3\<rparr> 2]])
   \<and> runTest_lookup
        (declare_all [Test ''a'' \<lparr>row = 2, column = 1\<rparr> 1, Describe ''g'' [Fail ''b'' \<lparr>row = 4, column = 3\<rparr> 2]]
           worker_globals)
        (testId (new_TestCase ''b'' \<lparr>row = 4, column = 3\<rparr> 2 (Suite ''g'' DescribeT (Some example_file))))
       = Inl TypeError
   \<and> runTest_lookup
        (declare_all [Test ''a'' \<lparr>row = 2, column = 1\<rparr> 1, Describe ''g'' [Fail ''b'' \<lparr>row = 4, column = 3\<rparr> 2]]
           worker_globals)
        (testId (new_TestCase ''a'' \<lparr>row = 2, column = 1\<rparr> 1 example_file))
       = Inr (new_TestCase ''a'' \<lparr>row = 2, column = 1\<rparr> 1 example_file)"
  using fail_not_registered [of "''b''" "\<lparr>row = 4, column = 3\<rparr>" 2 worker_globals
      "[Test ''a'' \<lparr>row = 2, column = 1\<rparr> 1, Describe ''g'' [Fail ''b'' \<lparr>row = 4, column = 3\<rparr> 2]]"
      "\<lambda>k. None"]
  by (simp add: worker_globals_def runTest_lookup_def test_def fail_def register_def Let_def
      new_TestCase_def example_file_def titlePath_def push_title_def string_of_nat.simps
      digits_def registered_def store_all_def)

text \<open>
  C10 as stated fails when ids collide: after \<^verbatim>\<open>test("a", f)\<close> and \<^verbatim>\<open>test.fail("a", g)\<close> in
  one suite, both at the fallback location, the lookup of the id of the \<^verbatim>\<open>test.fail\<close> case
  finds an entry, the test case of \<^verbatim>\<open>test\<close>.
\<close>

theorem fail_lookup_counterexample:
  "(False, new_TestCase ''a'' \<lparr>row = 0, column = 0\<rparr> 2 example_file)
      \<in> set (constructed (global_suite worker_globals) same_title_declarations)
   \<and> runTest_lookup (declare_all same_title_declarations worker_globals)
        (testId (new_TestCase ''a'' \<lparr>row = 0, column = 0\<rparr> 2 example_file))
       = Inr (new_TestCase ''a'' \<lparr>row = 0, column = 0\<rparr> 1 example_file)"
  by (simp add: worker_globals_def same_title_declarations_def runTest_lookup_def test_def fail_def
      register_def Let_def new_TestCase_def example_file_def)

end
